theory Spec2Isabelle
  imports Main "HOL-Library.Word"
begin

unbundle bit_operations_syntax

section \<open>libctf implementation header: alignment macros\<close>

text \<open>
  \<^verbatim>\<open>#define P2ROUNDUP(x, align) (-(-(x) & -(align)))\<close>
  \<^verbatim>\<open>#define LCTF_ALIGN_OFFS(offs, align) ((offs + (align - 1)) & ~(align - 1))\<close>

  Both macros are untyped; they are used on unsigned offsets and sizes. The model is
  polymorphic in the width of the machine word, so every operation wraps modulo
  \<open>2 ^ LENGTH('a)\<close> as the C arithmetic on an unsigned type of that width does.
\<close>

definition P2ROUNDUP :: "'a::len word \<Rightarrow> 'a word \<Rightarrow> 'a word" where
  "P2ROUNDUP x align = - ((- x) AND (- align))"

definition LCTF_ALIGN_OFFS :: "'a::len word \<Rightarrow> 'a word \<Rightarrow> 'a word" where
  "LCTF_ALIGN_OFFS offs align = (offs + (align - 1)) AND NOT (align - 1)"

section \<open>Identifier namespace macros\<close>

text \<open>
  \<^verbatim>\<open>#define LCTF_TYPE_ISPARENT(fp, id) ((id) <= fp->ctf_parmax)\<close>
  \<^verbatim>\<open>#define LCTF_TYPE_ISCHILD(fp, id) ((id) > fp->ctf_parmax)\<close>
  \<^verbatim>\<open>#define LCTF_TYPE_TO_INDEX(fp, id) ((id) & (fp->ctf_parmax))\<close>
  \<^verbatim>\<open>#define LCTF_INDEX_TO_TYPE(fp, id, child) (child ? ((id) | (fp->ctf_parmax+1)) : (id))\<close>

  The only part of \<open>fp\<close> the macros read is the field \<open>uint32_t ctf_parmax\<close>, so
  the model takes that field. The sum \<open>fp->ctf_parmax+1\<close> is computed in
  \<open>uint32_t\<close> and wraps to 0 at \<open>0xffffffff\<close>; the model keeps that by adding on
  \<open>32 word\<close> before widening. The boundary is converted to the type of the identifier
  without change of value, as the usual arithmetic conversions do for a signed type wider
  than 32 bits.
\<close>

text \<open>
  Modelled from the spec: the type \<open>ctf_id_t\<close> of type identifiers, which the header
  uses and the public API header declares. The spec makes an identifier an integer;
  identifiers are integers here, with \<open>AND\<close> and \<open>OR\<close> the two's-complement bit
  operations, so that the macros compute on them what C computes on a signed integer type
  wider than the boundary.
\<close>

type_synonym ctf_id_t = int

definition LCTF_TYPE_ISPARENT :: "32 word \<Rightarrow> ctf_id_t \<Rightarrow> bool" where
  "LCTF_TYPE_ISPARENT parmax i = (i \<le> uint parmax)"

definition LCTF_TYPE_ISCHILD :: "32 word \<Rightarrow> ctf_id_t \<Rightarrow> bool" where
  "LCTF_TYPE_ISCHILD parmax i = (i > uint parmax)"

definition LCTF_TYPE_TO_INDEX :: "32 word \<Rightarrow> ctf_id_t \<Rightarrow> ctf_id_t" where
  "LCTF_TYPE_TO_INDEX parmax i = i AND uint parmax"

definition LCTF_INDEX_TO_TYPE :: "32 word \<Rightarrow> ctf_id_t \<Rightarrow> bool \<Rightarrow> ctf_id_t" where
  "LCTF_INDEX_TO_TYPE parmax i child =
     (if child then i OR uint (parmax + 1) else i)"

section \<open>Declaration renderer: data and algorithm\<close>

text \<open>
  Modelled from the spec: the error taxonomy of the container (ParseError, InvalidId,
  DuplicateName, InvalidPayload, InvalidEpoch, OutOfMemory) and the NotFound result of
  name lookup. The header has only the integer fields \<open>ctf_errno\<close> and
  \<open>cd_err\<close>; the error codes themselves are declared outside it.
\<close>

datatype ctf_error = ParseError | InvalidId | DuplicateName | InvalidPayload
  | InvalidEpoch | OutOfMemory | NotFound

text \<open>
  Modelled from the spec: the type kinds (base types, pointers, arrays, functions,
  structures, unions, enums, forward declarations, typedefs, qualifiers, bit-field
  slices). The header stores a kind as \<open>uint32_t cd_kind\<close> and reads it
  through \<open>LCTF_INFO_KIND\<close>; the kind constants are declared in the format
  header, outside it.
\<close>

datatype ctf_kind = CTF_K_UNKNOWN | CTF_K_INTEGER | CTF_K_FLOAT | CTF_K_POINTER
  | CTF_K_ARRAY | CTF_K_FUNCTION | CTF_K_STRUCT | CTF_K_UNION | CTF_K_ENUM
  | CTF_K_FORWARD | CTF_K_TYPEDEF | CTF_K_VOLATILE | CTF_K_CONST | CTF_K_RESTRICT
  | CTF_K_SLICE

text \<open>
  Modelled from the spec: the type descriptor that \<open>lookup_by_id\<close> yields
  for an identifier, with what the renderer reads of it: the kind, the name, the
  referenced type (pointer target, array element, function result, typedef or qualifier
  target) and the array bound. The header declares only
  \<open>ctf_lookup_by_id\<close>.
\<close>

record ctf_type_desc =
  td_kind :: ctf_kind
  td_name :: string
  td_type :: ctf_id_t
  td_nelems :: nat

text \<open>
  \<^verbatim>\<open>typedef enum { CTF_PREC_BASE, CTF_PREC_POINTER, CTF_PREC_ARRAY,
  CTF_PREC_FUNCTION, CTF_PREC_MAX } ctf_decl_prec_t;\<close> The last enumerator is the
  number of levels, not a level; arrays of size \<open>CTF_PREC_MAX\<close> are
  functions on the four levels here.
\<close>

datatype ctf_decl_prec_t = CTF_PREC_BASE | CTF_PREC_POINTER | CTF_PREC_ARRAY
  | CTF_PREC_FUNCTION

text \<open>
  The integer value of each enumerator, in declaration order.
\<close>

fun prec_val :: "ctf_decl_prec_t \<Rightarrow> int" where
  "prec_val CTF_PREC_BASE = 0"
| "prec_val CTF_PREC_POINTER = 1"
| "prec_val CTF_PREC_ARRAY = 2"
| "prec_val CTF_PREC_FUNCTION = 3"

text \<open>
  \<^verbatim>\<open>struct ctf_decl_node\<close>: the type identifier, its kind and
  the array dimension. The list pointers \<open>cd_list\<close> are the list the node
  is kept in.
\<close>

record ctf_decl_node =
  cd_type :: ctf_id_t
  cd_kind :: ctf_kind
  cd_n :: nat

text \<open>
  \<^verbatim>\<open>struct ctf_decl\<close>: one node stack and one storage-order
  stamp per precedence level, the qualifier and order cursors, the output buffer (a
  \<open>char *\<close>, so it may be null), the saved error and the out-of-memory
  flag. \<open>cd_ordp\<close> has the enum type in C and is used as a counter; it is
  an integer here.
\<close>

record ctf_decl =
  cd_nodes :: "ctf_decl_prec_t \<Rightarrow> ctf_decl_node list"
  cd_order :: "ctf_decl_prec_t \<Rightarrow> int"
  cd_qualp :: ctf_decl_prec_t
  cd_ordp :: int
  cd_buf :: "string option"
  cd_err :: "ctf_error option"
  cd_enomem :: int

text \<open>
  Modelled from the spec: \<open>ctf_decl_init\<close>, declared in the header without
  a body. Every stack is empty, no level has an order stamp yet (one below
  \<open>CTF_PREC_BASE\<close>), both cursors are at the base level, the buffer is the
  empty string and both error indications are clear.
\<close>

definition ctf_decl_init :: ctf_decl where
  "ctf_decl_init = \<lparr> cd_nodes = (\<lambda>_. []), cd_order = (\<lambda>_. prec_val CTF_PREC_BASE - 1),
     cd_qualp = CTF_PREC_BASE, cd_ordp = prec_val CTF_PREC_BASE, cd_buf = Some [],
     cd_err = None, cd_enomem = 0 \<rparr>"

text \<open>
  Modelled from the spec: the step of \<open>ctf_decl_push\<close> that puts one node
  on the stack of its precedence level. The first node of a level stamps the level with
  the current order; a qualifiable level (base or pointer) above the qualifier cursor
  moves the cursor; arrays and qualifiers of a base type go to the front of their
  stack, everything else to the back.
\<close>

definition ctf_decl_node_add ::
  "ctf_decl \<Rightarrow> ctf_id_t \<Rightarrow> ctf_kind \<Rightarrow> nat \<Rightarrow> ctf_decl_prec_t \<Rightarrow> bool \<Rightarrow> ctf_decl" where
  "ctf_decl_node_add cd type kind n prec is_qual =
     (let cdp = \<lparr> cd_type = type, cd_kind = kind, cd_n = n \<rparr>;
          cd1 = (if cd_nodes cd prec = []
                 then cd\<lparr> cd_order := (cd_order cd)(prec := cd_ordp cd),
                          cd_ordp := cd_ordp cd + 1 \<rparr>
                 else cd);
          cd2 = (if prec_val prec > prec_val (cd_qualp cd1) \<and> prec_val prec < prec_val CTF_PREC_ARRAY
                 then cd1\<lparr> cd_qualp := prec \<rparr> else cd1)
      in if kind = CTF_K_ARRAY \<or> (is_qual \<and> prec = CTF_PREC_BASE)
         then cd2\<lparr> cd_nodes := (cd_nodes cd2)(prec := cdp # cd_nodes cd2 prec) \<rparr>
         else cd2\<lparr> cd_nodes := (cd_nodes cd2)(prec := cd_nodes cd2 prec @ [cdp]) \<rparr>)"

text \<open>
  Modelled from the spec: \<open>ctf_decl_push\<close>, declared in the header without
  a body: the walk along the type chain, innermost type first. Unknown identifiers are
  saved in \<open>cd_err\<close>. The walk of the C code recurses along the chain with
  no bound of its own; \<open>depth\<close> bounds it here, and a chain longer than
  \<open>depth\<close> is reported like an unknown identifier.
\<close>

primrec ctf_decl_push ::
  "nat \<Rightarrow> (ctf_id_t \<Rightarrow> ctf_type_desc option) \<Rightarrow> ctf_id_t \<Rightarrow> ctf_decl \<Rightarrow> ctf_decl" where
  "ctf_decl_push 0 fp type cd = cd\<lparr> cd_err := Some InvalidId \<rparr>"
| "ctf_decl_push (Suc depth) fp type cd =
     (case fp type of
        None \<Rightarrow> cd\<lparr> cd_err := Some InvalidId \<rparr>
      | Some tp \<Rightarrow>
         (case td_kind tp of
            CTF_K_ARRAY \<Rightarrow>
              ctf_decl_node_add (ctf_decl_push depth fp (td_type tp) cd)
                type CTF_K_ARRAY (td_nelems tp) CTF_PREC_ARRAY False
          | CTF_K_TYPEDEF \<Rightarrow>
              if td_name tp = [] then ctf_decl_push depth fp (td_type tp) cd
              else ctf_decl_node_add cd type CTF_K_TYPEDEF 1 CTF_PREC_BASE False
          | CTF_K_FUNCTION \<Rightarrow>
              ctf_decl_node_add (ctf_decl_push depth fp (td_type tp) cd)
                type CTF_K_FUNCTION 1 CTF_PREC_FUNCTION False
          | CTF_K_POINTER \<Rightarrow>
              ctf_decl_node_add (ctf_decl_push depth fp (td_type tp) cd)
                type CTF_K_POINTER 1 CTF_PREC_POINTER False
          | CTF_K_SLICE \<Rightarrow> ctf_decl_push depth fp (td_type tp) cd
          | CTF_K_VOLATILE \<Rightarrow>
              (let cd' = ctf_decl_push depth fp (td_type tp) cd
               in ctf_decl_node_add cd' type CTF_K_VOLATILE 1 (cd_qualp cd') True)
          | CTF_K_CONST \<Rightarrow>
              (let cd' = ctf_decl_push depth fp (td_type tp) cd
               in ctf_decl_node_add cd' type CTF_K_CONST 1 (cd_qualp cd') True)
          | CTF_K_RESTRICT \<Rightarrow>
              (let cd' = ctf_decl_push depth fp (td_type tp) cd
               in ctf_decl_node_add cd' type CTF_K_RESTRICT 1 (cd_qualp cd') True)
          | k \<Rightarrow> ctf_decl_node_add cd type k 1 CTF_PREC_BASE False))"

text \<open>
  Modelled from the spec: the decimal digit printed for a value below ten (part of the
  \<open>printf\<close>-style formatting of \<open>ctf_decl_sprintf\<close>).
\<close>

definition ctf_digit :: "nat \<Rightarrow> char" where
  "ctf_digit d = ''0123456789'' ! d"

text \<open>
  Modelled from the spec: the decimal rendering of an array bound, as the
  \<open>printf\<close>-style formatting of \<open>ctf_decl_sprintf\<close> produces
  it.
\<close>

function ctf_utoa :: "nat \<Rightarrow> string" where
  "ctf_utoa n = (if n < 10 then [ctf_digit n] else ctf_utoa (n div 10) @ [ctf_digit (n mod 10)])"
  by pat_completeness auto

termination
  by (relation "measure id") auto

declare ctf_utoa.simps [simp del]

text \<open>
  Modelled from the spec: the text of one declaration node: the operator of a pointer,
  array or function node, the keyword of a qualifier, the tagged name of a structure,
  union or enum, and the plain name of every other type.
\<close>

definition ctf_decl_node_text ::
  "(ctf_id_t \<Rightarrow> ctf_type_desc option) \<Rightarrow> ctf_decl_node \<Rightarrow> string" where
  "ctf_decl_node_text fp cdp =
     (let name = (case fp (cd_type cdp) of None \<Rightarrow> [] | Some tp \<Rightarrow> td_name tp)
      in case cd_kind cdp of
           CTF_K_POINTER \<Rightarrow> ''*''
         | CTF_K_ARRAY \<Rightarrow> ''['' @ ctf_utoa (cd_n cdp) @ '']''
         | CTF_K_FUNCTION \<Rightarrow> ''()''
         | CTF_K_STRUCT \<Rightarrow> ''struct '' @ name
         | CTF_K_FORWARD \<Rightarrow> ''struct '' @ name
         | CTF_K_UNION \<Rightarrow> ''union '' @ name
         | CTF_K_ENUM \<Rightarrow> ''enum '' @ name
         | CTF_K_VOLATILE \<Rightarrow> ''volatile''
         | CTF_K_CONST \<Rightarrow> ''const''
         | CTF_K_RESTRICT \<Rightarrow> ''restrict''
         | _ \<Rightarrow> name)"

text \<open>
  Modelled from the spec: the printing of the nodes of one precedence level, in stack
  order. The state is the kind printed last (no space is put after a pointer or an
  array) and the level at which a left parenthesis is still owed.
\<close>

fun ctf_decl_level_pieces ::
  "(ctf_id_t \<Rightarrow> ctf_type_desc option) \<Rightarrow> int \<Rightarrow> ctf_decl_node list \<Rightarrow>
   ctf_kind \<times> int \<Rightarrow> string list \<times> (ctf_kind \<times> int)" where
  "ctf_decl_level_pieces fp prec [] st = ([], st)"
| "ctf_decl_level_pieces fp prec (cdp # rest) (k, lp) =
     (let sp = (if k \<noteq> CTF_K_POINTER \<and> k \<noteq> CTF_K_ARRAY then ['' ''] else []);
          par = (if lp = prec then [''(''] else []);
          lp' = (if lp = prec then - 1 else lp);
          r = ctf_decl_level_pieces fp prec rest (cd_kind cdp, lp')
      in (sp @ par @ [ctf_decl_node_text fp cdp] @ fst r, snd r))"

text \<open>
  Modelled from the spec: the place of the declared identifier: after the prefix
  operators, separated from a type name by a space, and before the suffix operators,
  which follow it without a space.
\<close>

definition ctf_decl_ident_pieces :: "string \<Rightarrow> ctf_kind \<Rightarrow> string list \<times> ctf_kind" where
  "ctf_decl_ident_pieces ident k =
     (if ident = [] then ([], k)
      else ((if k \<noteq> CTF_K_POINTER then ['' ''] else []) @ [ident], CTF_K_POINTER))"

text \<open>
  Modelled from the spec: the printing loop of the renderer, as the list of strings it
  hands to \<open>ctf_decl_sprintf\<close>, in order. A pointer or array level stamped
  later than its own precedence binds against the lexical order and is parenthesised:
  the left parenthesis goes before the first node of level \<open>lp\<close>, the right
  one after the last node of level \<open>rp\<close>.
\<close>

definition ctf_decl_pieces ::
  "(ctf_id_t \<Rightarrow> ctf_type_desc option) \<Rightarrow> ctf_decl \<Rightarrow> string \<Rightarrow> string list" where
  "ctf_decl_pieces fp cd ident =
     (let ptr = cd_order cd CTF_PREC_POINTER > prec_val CTF_PREC_POINTER;
          arr = cd_order cd CTF_PREC_ARRAY > prec_val CTF_PREC_ARRAY;
          rp = (if arr then prec_val CTF_PREC_ARRAY
                else if ptr then prec_val CTF_PREC_POINTER else - 1);
          lp = (if ptr then prec_val CTF_PREC_POINTER
                else if arr then prec_val CTF_PREC_ARRAY else - 1);
          close = (\<lambda>prec. if rp = prec_val prec then ['')''] else []);
          b = ctf_decl_level_pieces fp (prec_val CTF_PREC_BASE)
                (cd_nodes cd CTF_PREC_BASE) (CTF_K_POINTER, lp);
          p = ctf_decl_level_pieces fp (prec_val CTF_PREC_POINTER)
                (cd_nodes cd CTF_PREC_POINTER) (snd b);
          i = ctf_decl_ident_pieces ident (fst (snd p));
          a = ctf_decl_level_pieces fp (prec_val CTF_PREC_ARRAY)
                (cd_nodes cd CTF_PREC_ARRAY) (snd i, snd (snd p));
          f = ctf_decl_level_pieces fp (prec_val CTF_PREC_FUNCTION)
                (cd_nodes cd CTF_PREC_FUNCTION) (snd a)
      in fst b @ close CTF_PREC_BASE @ fst p @ fst i @ close CTF_PREC_POINTER
         @ fst a @ close CTF_PREC_ARRAY @ fst f @ close CTF_PREC_FUNCTION)"

text \<open>
  Modelled from the spec: \<open>ctf_str_append\<close>, declared in the header without
  a body: appending to a string that may be null.
\<close>

fun ctf_str_append :: "string option \<Rightarrow> string \<Rightarrow> string option" where
  "ctf_str_append None str = Some str"
| "ctf_str_append (Some s) str = Some (s @ str)"

text \<open>
  Modelled from the spec: \<open>ctf_decl_sprintf\<close>, declared in the header
  without a body. Each call is one attempt to grow the output buffer. The second
  component of the state is the allocator: \<open>None\<close> never fails, \<open>Some
  n\<close> lets \<open>n\<close> more attempts succeed and fails the next. A failed
  attempt sets \<open>cd_enomem\<close> and keeps the text printed so far; once the
  flag is set nothing more is printed.
\<close>

fun ctf_decl_sprintf :: "string \<Rightarrow> ctf_decl \<times> nat option \<Rightarrow> ctf_decl \<times> nat option" where
  "ctf_decl_sprintf str (cd, heap) =
     (if cd_enomem cd \<noteq> 0 then (cd, heap)
      else case heap of
             None \<Rightarrow> (cd\<lparr> cd_buf := ctf_str_append (cd_buf cd) str \<rparr>, None)
           | Some 0 \<Rightarrow> (cd\<lparr> cd_enomem := 1 \<rparr>, Some 0)
           | Some (Suc left) \<Rightarrow>
               (cd\<lparr> cd_buf := ctf_str_append (cd_buf cd) str \<rparr>, Some left))"

text \<open>
  Modelled from the spec: \<open>ctf_decl_buf\<close>, declared in the header without a
  body: the output buffer of the declaration.
\<close>

definition ctf_decl_buf :: "ctf_decl \<Rightarrow> string option" where
  "ctf_decl_buf cd = cd_buf cd"

text \<open>
  Modelled from the spec: the Declaration Renderer as a whole (its entry point is not
  declared in the header): push the chain of the type, fail with the saved error if
  there is one, otherwise print all pieces and return the buffer together with the
  out-of-memory flag.
\<close>

definition ctf_type_aname ::
  "nat \<Rightarrow> (ctf_id_t \<Rightarrow> ctf_type_desc option) \<Rightarrow> ctf_id_t \<Rightarrow> string \<Rightarrow> nat option \<Rightarrow>
   ctf_error + (string option \<times> bool)" where
  "ctf_type_aname depth fp type ident heap =
     (let cd = ctf_decl_push depth fp type ctf_decl_init
      in case cd_err cd of
           Some e \<Rightarrow> Inl e
         | None \<Rightarrow>
            (let cd' = fst (fold ctf_decl_sprintf (ctf_decl_pieces fp cd ident) (cd, heap))
             in Inr (ctf_decl_buf cd', cd_enomem cd' \<noteq> 0)))"

text \<open>
  The chain of a type resolves within \<open>depth\<close> links: every identifier
  along it is known to the table, and after fewer than \<open>depth\<close> links
  through arrays, pointers, functions, qualifiers, slices and anonymous typedefs it
  ends in a type that is none of these.
\<close>

primrec ctf_chain_ok :: "nat \<Rightarrow> (ctf_id_t \<Rightarrow> ctf_type_desc option) \<Rightarrow> ctf_id_t \<Rightarrow> bool" where
  "ctf_chain_ok 0 fp type = False"
| "ctf_chain_ok (Suc depth) fp type =
     (case fp type of
        None \<Rightarrow> False
      | Some tp \<Rightarrow>
         (case td_kind tp of
            CTF_K_ARRAY \<Rightarrow> ctf_chain_ok depth fp (td_type tp)
          | CTF_K_TYPEDEF \<Rightarrow> td_name tp \<noteq> [] \<or> ctf_chain_ok depth fp (td_type tp)
          | CTF_K_FUNCTION \<Rightarrow> ctf_chain_ok depth fp (td_type tp)
          | CTF_K_POINTER \<Rightarrow> ctf_chain_ok depth fp (td_type tp)
          | CTF_K_SLICE \<Rightarrow> ctf_chain_ok depth fp (td_type tp)
          | CTF_K_VOLATILE \<Rightarrow> ctf_chain_ok depth fp (td_type tp)
          | CTF_K_CONST \<Rightarrow> ctf_chain_ok depth fp (td_type tp)
          | CTF_K_RESTRICT \<Rightarrow> ctf_chain_ok depth fp (td_type tp)
          | _ \<Rightarrow> True))"

text \<open>
  A type table for the two declarations of the precedence property: 1 is
  \<open>int\<close>, 2 a pointer to it, 3 an array of ten such pointers, 4 an array of
  ten \<open>int\<close>, 5 a pointer to that array.
\<close>

definition decl_example :: "ctf_id_t \<Rightarrow> ctf_type_desc option" where
  "decl_example =
     [1 \<mapsto> \<lparr> td_kind = CTF_K_INTEGER, td_name = ''int'', td_type = 0, td_nelems = 0 \<rparr>,
      2 \<mapsto> \<lparr> td_kind = CTF_K_POINTER, td_name = [], td_type = 1, td_nelems = 0 \<rparr>,
      3 \<mapsto> \<lparr> td_kind = CTF_K_ARRAY, td_name = [], td_type = 2, td_nelems = 10 \<rparr>,
      4 \<mapsto> \<lparr> td_kind = CTF_K_ARRAY, td_name = [], td_type = 1, td_nelems = 10 \<rparr>,
      5 \<mapsto> \<lparr> td_kind = CTF_K_POINTER, td_name = [], td_type = 4, td_nelems = 0 \<rparr>]"

text \<open>
  The number of nodes on each precedence level, base level first.
\<close>

definition cd_levels :: "ctf_decl \<Rightarrow> nat list" where
  "cd_levels cd = map (\<lambda>prec. length (cd_nodes cd prec))
     [CTF_PREC_BASE, CTF_PREC_POINTER, CTF_PREC_ARRAY, CTF_PREC_FUNCTION]"

section \<open>Type container: data model\<close>

text \<open>
  Modelled from the spec: the four partitions of the name index. The header has one
  hash per partition (\<open>ctf_structs\<close>, \<open>ctf_unions\<close>,
  \<open>ctf_enums\<close>, \<open>ctf_names\<close>).
\<close>

datatype ctf_namespace = CTF_NS_STRUCT | CTF_NS_UNION | CTF_NS_ENUM | CTF_NS_NAMES

text \<open>
  Modelled from the spec: the partition a kind is indexed in: struct, union and enum
  tags in their own tables, every other name in the remaining one.
\<close>

fun ctf_kind_namespace :: "ctf_kind \<Rightarrow> ctf_namespace" where
  "ctf_kind_namespace CTF_K_STRUCT = CTF_NS_STRUCT"
| "ctf_kind_namespace CTF_K_UNION = CTF_NS_UNION"
| "ctf_kind_namespace CTF_K_ENUM = CTF_NS_ENUM"
| "ctf_kind_namespace _ = CTF_NS_NAMES"

text \<open>
  \<^verbatim>\<open>struct ctf_dmdef\<close>: name, type and bit offset of a member,
  or name and value of an enumerator.
\<close>

record ctf_dmdef =
  dmd_name :: string
  dmd_type :: ctf_id_t
  dmd_offset :: nat
  dmd_value :: int

text \<open>
  The union \<open>dtd_u\<close> of \<^verbatim>\<open>struct ctf_dtdef\<close>, one
  constructor per alternative (members, array, encoding, arguments, slice) and one for
  kinds that use none. Modelled from the spec: the contents of the array, encoding and
  slice descriptors, whose types are declared outside the header: element type, index
  type and bound; three numbers; sliced type, offset and width.
\<close>

datatype ctf_dtu = DTU_MEMBERS "ctf_dmdef list"
  | DTU_ARR ctf_id_t ctf_id_t nat
  | DTU_ENC nat nat nat
  | DTU_ARGV "ctf_id_t list"
  | DTU_SLICE ctf_id_t nat nat
  | DTU_NONE

text \<open>
  Modelled from the spec: the type node \<open>ctf_type_t\<close> of the format header,
  with the two parts the container operations read: the kind and the referenced type.
\<close>

record ctf_type_t =
  ctt_kind :: ctf_kind
  ctt_type :: ctf_id_t

text \<open>
  \<^verbatim>\<open>struct ctf_dtdef\<close>: optional name, identifier, type node and
  payload. Modelled from the spec: \<open>dtd_snapshots\<close>, which the C struct
  does not have: the snapshot epoch in which the definition was created, which the spec
  gives every dynamic definition.
\<close>

record ctf_dtdef =
  dtd_name :: "string option"
  dtd_type :: ctf_id_t
  dtd_data :: ctf_type_t
  dtd_u :: ctf_dtu
  dtd_snapshots :: nat

text \<open>
  \<^verbatim>\<open>struct ctf_dvdef\<close>: name, type and the snapshot count when
  inserted.
\<close>

record ctf_dvdef =
  dvd_name :: string
  dvd_type :: ctf_id_t
  dvd_snapshots :: nat

text \<open>
  Modelled from the spec: one type record of a committed buffer: what a dynamic
  definition keeps once it is serialised.
\<close>

record ctf_srec =
  sr_name :: "string option"
  sr_type :: ctf_id_t
  sr_data :: ctf_type_t
  sr_u :: ctf_dtu

text \<open>
  Modelled from the spec: the committed buffer, as the sequence of its type records and
  of its variable entries. The byte layout is not modelled.
\<close>

record ctf_buffer =
  buf_types :: "ctf_srec list"
  buf_vars :: "(string \<times> ctf_id_t) list"

text \<open>
  \<^verbatim>\<open>struct ctf_file\<close>, with the fields the container operations
  use: the four static name hashes, the committed buffer, the parent boundary, the
  three views of the dynamic type definitions (hash by identifier, hash by name, list),
  the two views of the dynamic variables, the next identifier and the two snapshot
  counters. The hashes are finite maps. \<open>ctf_dtbyname\<close> is keyed by
  partition and name.
\<close>

record ctf_file_base =
  ctf_structs :: "string \<rightharpoonup> ctf_id_t"
  ctf_unions :: "string \<rightharpoonup> ctf_id_t"
  ctf_enums :: "string \<rightharpoonup> ctf_id_t"
  ctf_names :: "string \<rightharpoonup> ctf_id_t"
  ctf_buf :: ctf_buffer
  ctf_parmax :: "32 word"
  ctf_dthash :: "ctf_id_t \<rightharpoonup> ctf_dtdef"
  ctf_dtbyname :: "ctf_namespace \<times> string \<rightharpoonup> ctf_dtdef"
  ctf_dtdefs :: "ctf_dtdef list"
  ctf_dvhash :: "string \<rightharpoonup> ctf_dvdef"
  ctf_dvdefs :: "ctf_dvdef list"
  ctf_dtnextid :: ctf_id_t
  ctf_snapshots :: nat
  ctf_snapshot_lu :: nat

text \<open>
  A container with its \<open>ctf_parent\<close> pointer. A parent has no parent of its
  own (the spec allows no depth above one), so the parent is a container without the
  field.
\<close>

record ctf_file = ctf_file_base +
  ctf_parent :: "ctf_file_base option"


text \<open>
  Modelled from the spec: the key of a dynamic definition in the name index: its
  partition and its name; anonymous definitions have none.
\<close>

definition dtd_key :: "ctf_dtdef \<Rightarrow> (ctf_namespace \<times> string) option" where
  "dtd_key d = (case dtd_name d of None \<Rightarrow> None
                | Some n \<Rightarrow> Some (ctf_kind_namespace (ctt_kind (dtd_data d)), n))"

text \<open>
  Modelled from the spec: newest-wins: the last definition of the insertion-ordered
  list that has the given key.
\<close>

fun dtd_newest :: "ctf_dtdef list \<Rightarrow> ctf_namespace \<times> string \<Rightarrow> ctf_dtdef option" where
  "dtd_newest [] k = None"
| "dtd_newest (d # ds) k =
     (case dtd_newest ds k of Some e \<Rightarrow> Some e
      | None \<Rightarrow> if dtd_key d = Some k then Some d else None)"

text \<open>
  Modelled from the spec: \<open>ctf_dtd_insert\<close>, declared in the header without
  a body: the definition is appended to the list and entered in both hashes; in the
  name hash it replaces an older definition of the same key.
\<close>

definition ctf_dtd_insert :: "'a ctf_file_base_scheme \<Rightarrow> ctf_dtdef \<Rightarrow> 'a ctf_file_base_scheme" where
  "ctf_dtd_insert fp dtd =
     fp\<lparr> ctf_dtdefs := ctf_dtdefs fp @ [dtd],
         ctf_dthash := (ctf_dthash fp)(dtd_type dtd \<mapsto> dtd),
         ctf_dtbyname := (case dtd_key dtd of None \<Rightarrow> ctf_dtbyname fp
                          | Some k \<Rightarrow> (ctf_dtbyname fp)(k \<mapsto> dtd)) \<rparr>"

text \<open>
  Modelled from the spec: \<open>ctf_dtd_delete\<close>, declared in the header without
  a body: the definition leaves the list and the identifier hash, and its key in the
  name hash goes back to the newest remaining definition that has it, if any.
\<close>

definition ctf_dtd_delete :: "'a ctf_file_base_scheme \<Rightarrow> ctf_dtdef \<Rightarrow> 'a ctf_file_base_scheme" where
  "ctf_dtd_delete fp dtd =
     (let rest = filter (\<lambda>e. dtd_type e \<noteq> dtd_type dtd) (ctf_dtdefs fp)
      in fp\<lparr> ctf_dtdefs := rest,
             ctf_dthash := (ctf_dthash fp)(dtd_type dtd := None),
             ctf_dtbyname := (case dtd_key dtd of None \<Rightarrow> ctf_dtbyname fp
                              | Some k \<Rightarrow> (ctf_dtbyname fp)(k := dtd_newest rest k)) \<rparr>)"

text \<open>
  Modelled from the spec: \<open>ctf_dtd_lookup\<close>, declared in the header without
  a body.
\<close>

definition ctf_dtd_lookup :: "'a ctf_file_base_scheme \<Rightarrow> ctf_id_t \<Rightarrow> ctf_dtdef option" where
  "ctf_dtd_lookup fp type = ctf_dthash fp type"

text \<open>
  Modelled from the spec: \<open>ctf_dvd_insert\<close>, declared in the header without
  a body.
\<close>

definition ctf_dvd_insert :: "'a ctf_file_base_scheme \<Rightarrow> ctf_dvdef \<Rightarrow> 'a ctf_file_base_scheme" where
  "ctf_dvd_insert fp dv =
     fp\<lparr> ctf_dvdefs := ctf_dvdefs fp @ [dv],
         ctf_dvhash := (ctf_dvhash fp)(dvd_name dv \<mapsto> dv) \<rparr>"

text \<open>
  Modelled from the spec: \<open>ctf_dvd_delete\<close>, declared in the header without
  a body.
\<close>

definition ctf_dvd_delete :: "'a ctf_file_base_scheme \<Rightarrow> ctf_dvdef \<Rightarrow> 'a ctf_file_base_scheme" where
  "ctf_dvd_delete fp dv =
     fp\<lparr> ctf_dvdefs := filter (\<lambda>e. dvd_name e \<noteq> dvd_name dv) (ctf_dvdefs fp),
         ctf_dvhash := (ctf_dvhash fp)(dvd_name dv := None) \<rparr>"

text \<open>
  Modelled from the spec: \<open>ctf_dvd_lookup\<close>, declared in the header without
  a body.
\<close>

definition ctf_dvd_lookup :: "'a ctf_file_base_scheme \<Rightarrow> string \<Rightarrow> ctf_dvdef option" where
  "ctf_dvd_lookup fp name = ctf_dvhash fp name"

text \<open>
  Modelled from the spec: the payload a kind takes; \<open>add_type\<close> answers
  InvalidPayload for any other.
\<close>

definition ctf_dtu_fits :: "ctf_kind \<Rightarrow> ctf_dtu \<Rightarrow> bool" where
  "ctf_dtu_fits kind u =
     (case kind of
        CTF_K_UNKNOWN \<Rightarrow> False
      | CTF_K_STRUCT \<Rightarrow> (case u of DTU_MEMBERS _ \<Rightarrow> True | _ \<Rightarrow> False)
      | CTF_K_UNION \<Rightarrow> (case u of DTU_MEMBERS _ \<Rightarrow> True | _ \<Rightarrow> False)
      | CTF_K_ENUM \<Rightarrow> (case u of DTU_MEMBERS _ \<Rightarrow> True | _ \<Rightarrow> False)
      | CTF_K_ARRAY \<Rightarrow> (case u of DTU_ARR _ _ _ \<Rightarrow> True | _ \<Rightarrow> False)
      | CTF_K_INTEGER \<Rightarrow> (case u of DTU_ENC _ _ _ \<Rightarrow> True | _ \<Rightarrow> False)
      | CTF_K_FLOAT \<Rightarrow> (case u of DTU_ENC _ _ _ \<Rightarrow> True | _ \<Rightarrow> False)
      | CTF_K_FUNCTION \<Rightarrow> (case u of DTU_ARGV _ \<Rightarrow> True | _ \<Rightarrow> False)
      | CTF_K_SLICE \<Rightarrow> (case u of DTU_SLICE _ _ _ \<Rightarrow> True | _ \<Rightarrow> False)
      | _ \<Rightarrow> u = DTU_NONE)"

text \<open>
  Modelled from the spec: \<open>snapshot\<close>: the epoch counter advances and the
  new epoch is returned, so that the definitions made after the call are exactly those
  of that epoch or a later one.
\<close>

definition snapshot :: "'a ctf_file_base_scheme \<Rightarrow> nat \<times> 'a ctf_file_base_scheme" where
  "snapshot fp = (ctf_snapshots fp + 1, fp\<lparr> ctf_snapshots := ctf_snapshots fp + 1 \<rparr>)"

text \<open>
  Modelled from the spec: \<open>add_type\<close>: the next identifier of the
  per-container counter, a new definition stamped with the current epoch, inserted in
  all three views. The payload is the referenced type and the kind-specific part. The
  spec lists DuplicateName among the results without saying when it arises and lets a
  later dynamic definition shadow an earlier one of the same name, so a repeated name
  is accepted.
\<close>

definition add_type ::
  "ctf_kind \<Rightarrow> string option \<Rightarrow> ctf_id_t \<times> ctf_dtu \<Rightarrow> 'a ctf_file_base_scheme \<Rightarrow>
   (ctf_error + ctf_id_t) \<times> 'a ctf_file_base_scheme" where
  "add_type kind name payload fp =
     (if \<not> ctf_dtu_fits kind (snd payload) then (Inl InvalidPayload, fp)
      else let type = ctf_dtnextid fp;
               dtd = \<lparr> dtd_name = name, dtd_type = type,
                       dtd_data = \<lparr> ctt_kind = kind, ctt_type = fst payload \<rparr>,
                       dtd_u = snd payload, dtd_snapshots = ctf_snapshots fp \<rparr>
           in (Inr type, (ctf_dtd_insert fp dtd)\<lparr> ctf_dtnextid := type + 1 \<rparr>))"

text \<open>
  Modelled from the spec: adding a dynamic variable definition, stamped with the
  current epoch; a name that is already bound is rejected and the overlay is left as it
  was.
\<close>

definition add_variable ::
  "string \<Rightarrow> ctf_id_t \<Rightarrow> 'a ctf_file_base_scheme \<Rightarrow>
   (ctf_error + unit) \<times> 'a ctf_file_base_scheme" where
  "add_variable name type fp =
     (case ctf_dvd_lookup fp name of
        Some _ \<Rightarrow> (Inl DuplicateName, fp)
      | None \<Rightarrow> (Inr (), ctf_dvd_insert fp
          \<lparr> dvd_name = name, dvd_type = type, dvd_snapshots = ctf_snapshots fp \<rparr>))"

text \<open>
  Modelled from the spec: the creation epochs of all dynamic definitions still present.
\<close>

definition overlay_epochs :: "'a ctf_file_base_scheme \<Rightarrow> nat list" where
  "overlay_epochs fp = map dtd_snapshots (ctf_dtdefs fp) @ map dvd_snapshots (ctf_dvdefs fp)"

text \<open>
  Modelled from the spec: the target epoch is older than the oldest dynamic definition
  still present.
\<close>

definition epoch_too_old :: "nat \<Rightarrow> 'a ctf_file_base_scheme \<Rightarrow> bool" where
  "epoch_too_old target fp =
     (overlay_epochs fp \<noteq> [] \<and> list_all (\<lambda>e. target < e) (overlay_epochs fp))"

text \<open>
  Modelled from the spec: \<open>rollback\<close>: InvalidEpoch and an untouched
  overlay when the target is too old; otherwise every type and variable definition
  created at or after the target epoch is deleted, newest first.
\<close>

definition rollback ::
  "nat \<Rightarrow> 'a ctf_file_base_scheme \<Rightarrow> (ctf_error + unit) \<times> 'a ctf_file_base_scheme" where
  "rollback target fp =
     (if epoch_too_old target fp then (Inl InvalidEpoch, fp)
      else let dtds = rev (filter (\<lambda>d. target \<le> dtd_snapshots d) (ctf_dtdefs fp));
               dvds = rev (filter (\<lambda>v. target \<le> dvd_snapshots v) (ctf_dvdefs fp))
           in (Inr (), fold (\<lambda>v f. ctf_dvd_delete f v) dvds
                         (fold (\<lambda>d f. ctf_dtd_delete f d) dtds fp)))"



text \<open>
  Modelled from the spec: the definition of the list that has a given identifier.
\<close>

definition dtd_index :: "ctf_dtdef list \<Rightarrow> ctf_id_t \<Rightarrow> ctf_dtdef option" where
  "dtd_index ds type = find (\<lambda>d. dtd_type d = type) ds"

text \<open>
  Modelled from the spec: the variable of the list that has a given name.
\<close>

definition dvd_index :: "ctf_dvdef list \<Rightarrow> string \<Rightarrow> ctf_dvdef option" where
  "dvd_index vs name = find (\<lambda>v. dvd_name v = name) vs"

text \<open>
  The consistency of the dynamic overlay: the identifiers of the list are distinct, the
  identifier hash and the name hash are the indices of the list, likewise for
  variables, every identifier is below the counter and no epoch is ahead of the current
  one.
\<close>

definition overlay_ok :: "'a ctf_file_base_scheme \<Rightarrow> bool" where
  "overlay_ok fp \<longleftrightarrow>
     distinct (map dtd_type (ctf_dtdefs fp)) \<and>
     ctf_dthash fp = dtd_index (ctf_dtdefs fp) \<and>
     ctf_dtbyname fp = dtd_newest (ctf_dtdefs fp) \<and>
     distinct (map dvd_name (ctf_dvdefs fp)) \<and>
     ctf_dvhash fp = dvd_index (ctf_dvdefs fp) \<and>
     list_all (\<lambda>d. dtd_type d < ctf_dtnextid fp \<and> dtd_snapshots d \<le> ctf_snapshots fp)
       (ctf_dtdefs fp) \<and>
     list_all (\<lambda>v. dvd_snapshots v \<le> ctf_snapshots fp) (ctf_dvdefs fp)"


text \<open>
  Modelled from the spec: what a commit needs from its environment: the space available
  for the new buffer, counted in records, and whether the allocation of the buffer
  succeeds.
\<close>

record ctf_env =
  env_space :: nat
  env_alloc :: bool

text \<open>
  Modelled from the spec: the type identifiers a dynamic definition refers to
  structurally.
\<close>

definition dtd_refs :: "ctf_dtdef \<Rightarrow> ctf_id_t list" where
  "dtd_refs dtd =
     (case ctt_kind (dtd_data dtd) of
        CTF_K_POINTER \<Rightarrow> [ctt_type (dtd_data dtd)]
      | CTF_K_TYPEDEF \<Rightarrow> [ctt_type (dtd_data dtd)]
      | CTF_K_VOLATILE \<Rightarrow> [ctt_type (dtd_data dtd)]
      | CTF_K_CONST \<Rightarrow> [ctt_type (dtd_data dtd)]
      | CTF_K_RESTRICT \<Rightarrow> [ctt_type (dtd_data dtd)]
      | CTF_K_FUNCTION \<Rightarrow>
          ctt_type (dtd_data dtd) # (case dtd_u dtd of DTU_ARGV argv \<Rightarrow> argv | _ \<Rightarrow> [])
      | CTF_K_STRUCT \<Rightarrow> (case dtd_u dtd of DTU_MEMBERS ms \<Rightarrow> map dmd_type ms | _ \<Rightarrow> [])
      | CTF_K_UNION \<Rightarrow> (case dtd_u dtd of DTU_MEMBERS ms \<Rightarrow> map dmd_type ms | _ \<Rightarrow> [])
      | CTF_K_ARRAY \<Rightarrow> (case dtd_u dtd of DTU_ARR c i _ \<Rightarrow> [c, i] | _ \<Rightarrow> [])
      | CTF_K_SLICE \<Rightarrow> (case dtd_u dtd of DTU_SLICE t _ _ \<Rightarrow> [t] | _ \<Rightarrow> [])
      | _ \<Rightarrow> [])"

text \<open>
  Modelled from the spec: an identifier names a type of this container, committed or
  dynamic.
\<close>

definition ctf_type_known :: "'a ctf_file_base_scheme \<Rightarrow> ctf_id_t \<Rightarrow> bool" where
  "ctf_type_known fp type \<longleftrightarrow>
     type \<in> set (map sr_type (buf_types (ctf_buf fp))) \<or> ctf_dthash fp type \<noteq> None"

text \<open>
  Modelled from the spec: an identifier names a type of the container or, within the
  parent range, a type of its parent.
\<close>

definition ctf_type_exists :: "ctf_file \<Rightarrow> ctf_id_t \<Rightarrow> bool" where
  "ctf_type_exists fp type \<longleftrightarrow>
     ctf_type_known fp type \<or>
     (case ctf_parent fp of
        None \<Rightarrow> False
      | Some pfp \<Rightarrow> LCTF_TYPE_ISPARENT (ctf_parmax fp) type \<and> ctf_type_known pfp type)"

text \<open>
  Modelled from the spec: every structural reference of every pending definition
  exists.
\<close>

definition ctf_refs_ok :: "ctf_file \<Rightarrow> bool" where
  "ctf_refs_ok fp \<longleftrightarrow>
     list_all (\<lambda>dtd. list_all (ctf_type_exists fp) (dtd_refs dtd)) (ctf_dtdefs fp) \<and>
     list_all (\<lambda>dv. ctf_type_exists fp (dvd_type dv)) (ctf_dvdefs fp)"

text \<open>
  Modelled from the spec: the committed record of a dynamic definition.
\<close>

definition dtd_srec :: "ctf_dtdef \<Rightarrow> ctf_srec" where
  "dtd_srec dtd = \<lparr> sr_name = dtd_name dtd, sr_type = dtd_type dtd,
     sr_data = dtd_data dtd, sr_u = dtd_u dtd \<rparr>"

text \<open>
  Modelled from the spec: the canonical order of a commit: the committed records first,
  then the dynamic definitions in insertion order; members keep their insertion order.
\<close>

definition ctf_serialize :: "'a ctf_file_base_scheme \<Rightarrow> ctf_buffer" where
  "ctf_serialize fp =
     \<lparr> buf_types = buf_types (ctf_buf fp) @ map dtd_srec (ctf_dtdefs fp),
       buf_vars = buf_vars (ctf_buf fp) @ map (\<lambda>dv. (dvd_name dv, dvd_type dv)) (ctf_dvdefs fp) \<rparr>"

text \<open>
  Modelled from the spec: the size of a buffer, counted in records.
\<close>

definition ctf_buffer_size :: "ctf_buffer \<Rightarrow> nat" where
  "ctf_buffer_size buf = length (buf_types buf) + length (buf_vars buf)"

text \<open>
  Modelled from the spec: building the static hash of one partition by one scan of the
  type records.
\<close>

definition ctf_hash_build :: "ctf_namespace \<Rightarrow> ctf_srec list \<Rightarrow> (string \<rightharpoonup> ctf_id_t)" where
  "ctf_hash_build ns recs =
     fold (\<lambda>r h. case sr_name r of
                    None \<Rightarrow> h
                  | Some n \<Rightarrow> if ctf_kind_namespace (ctt_kind (sr_data r)) = ns
                              then h(n \<mapsto> sr_type r) else h)
       recs Map.empty"

text \<open>
  Modelled from the spec: \<open>commit\<close> (\<open>ctf_update\<close> in the
  header's comments): it fails on a dangling structural reference, on lack of space and
  on allocation failure, and then returns the container as it was; otherwise it
  installs the new buffer, rebuilds the four static hashes from it, clears the overlay
  and advances the epoch.
\<close>

definition commit :: "ctf_env \<Rightarrow> ctf_file \<Rightarrow> (ctf_error + ctf_buffer) \<times> ctf_file" where
  "commit env fp =
     (if \<not> ctf_refs_ok fp then (Inl InvalidId, fp)
      else let buf = ctf_serialize fp
           in if env_space env < ctf_buffer_size buf then (Inl OutOfMemory, fp)
              else if \<not> env_alloc env then (Inl OutOfMemory, fp)
              else (Inr buf,
                    fp\<lparr> ctf_buf := buf,
                        ctf_structs := ctf_hash_build CTF_NS_STRUCT (buf_types buf),
                        ctf_unions := ctf_hash_build CTF_NS_UNION (buf_types buf),
                        ctf_enums := ctf_hash_build CTF_NS_ENUM (buf_types buf),
                        ctf_names := ctf_hash_build CTF_NS_NAMES (buf_types buf),
                        ctf_dthash := Map.empty, ctf_dtbyname := Map.empty,
                        ctf_dtdefs := [], ctf_dvhash := Map.empty, ctf_dvdefs := [],
                        ctf_snapshots := ctf_snapshots fp + 1,
                        ctf_snapshot_lu := ctf_snapshots fp + 1 \<rparr>))"

text \<open>
  Modelled from the spec: a new, empty, writable container.
\<close>

definition ctf_create :: ctf_file where
  "ctf_create =
     \<lparr> ctf_structs = Map.empty, ctf_unions = Map.empty, ctf_enums = Map.empty,
       ctf_names = Map.empty, ctf_buf = \<lparr> buf_types = [], buf_vars = [] \<rparr>,
       ctf_parmax = 0, ctf_dthash = Map.empty, ctf_dtbyname = Map.empty, ctf_dtdefs = [],
       ctf_dvhash = Map.empty, ctf_dvdefs = [], ctf_dtnextid = 1, ctf_snapshots = 0,
       ctf_snapshot_lu = 0, ctf_parent = None \<rparr>"

text \<open>
  The payload of a 32-bit integer type.
\<close>

definition int_payload :: "ctf_id_t \<times> ctf_dtu" where
  "int_payload = (0, DTU_ENC 1 0 32)"

text \<open>
  Three dynamic types added at epochs 1, 2 and 3 to an empty container.
\<close>

definition three_epochs :: ctf_file where
  "three_epochs =
     snd (add_type CTF_K_INTEGER (Some ''c'') int_payload (snd (snapshot
       (snd (add_type CTF_K_INTEGER (Some ''b'') int_payload (snd (snapshot
         (snd (add_type CTF_K_INTEGER (Some ''a'') int_payload (snd (snapshot ctf_create)))))))))))"


text \<open>
  A container with one pending pointer type whose target, 7, does not exist.
\<close>

definition dangling :: ctf_file where
  "dangling = snd (add_type CTF_K_POINTER (Some ''p'') (7, DTU_NONE) ctf_create)"

section \<open>Alignment: the two macros agree and round up\<close>

lemma and_not_mask_minus: "(y::'a::len word) AND NOT (mask k) = y - take_bit k y"
proof -
  have "y - take_bit k y = y AND NOT (take_bit k y)"
    by (rule disjunctive_diff) (simp add: bit_take_bit_iff)
  also have "\<dots> = y AND NOT (mask k)"
    by (rule bit_eqI) (auto simp: bit_simps)
  finally show ?thesis by simp
qed

lemma or_mask_plus: "(z::'a::len word) OR mask k = (z AND NOT (mask k)) + mask k"
proof -
  have "(z AND NOT (mask k)) + mask k = (z AND NOT (mask k)) OR mask k"
    by (rule disjunctive_add) (simp add: bit_simps)
  also have "\<dots> = z OR mask k"
    by (rule bit_eqI) (auto simp: bit_simps)
  finally show ?thesis by simp
qed

lemma take_bit_add_exp: "take_bit k ((z::'a::len word) + 2 ^ k) = take_bit k z"
  apply transfer
  apply (simp add: take_bit_eq_mod)
  apply (metis (no_types, lifting) mod_add_self2 take_bit_eq_mod take_bit_take_bit)
  done

lemma P2ROUNDUP_alt: "P2ROUNDUP x (2 ^ k) = ((x - 1) AND NOT (mask k)) + 2 ^ k"
proof -
  have "P2ROUNDUP x (2 ^ k) = - (NOT (x - 1) AND NOT (mask k))"
    by (simp only: P2ROUNDUP_def minus_exp_eq_not_mask minus_eq_not_minus_1 [of x])
  also have "\<dots> = - NOT ((x - 1) OR mask k)" by simp
  also have "\<dots> = ((x - 1) OR mask k) + 1" by (simp add: minus_eq_not_plus_1)
  also have "\<dots> = ((x - 1) AND NOT (mask k)) + (mask k + 1)"
    by (simp only: or_mask_plus add.assoc)
  also have "mask k + 1 = (2 ^ k :: 'a word)"
    by (simp add: mask_eq_decr_exp)
  finally show ?thesis .
qed

lemma LCTF_ALIGN_OFFS_alt:
  "LCTF_ALIGN_OFFS x (2 ^ k) = ((x - 1) AND NOT (mask k)) + 2 ^ k"
proof -
  have "x + (2 ^ k - 1) = (x - 1) + 2 ^ k"
    by simp
  then have "LCTF_ALIGN_OFFS x (2 ^ k) = ((x - 1) + 2 ^ k) AND NOT (mask k)"
    by (simp only: LCTF_ALIGN_OFFS_def mask_eq_decr_exp)
  also have "\<dots> = ((x - 1) + 2 ^ k) - take_bit k (x - 1)"
    by (simp only: and_not_mask_minus take_bit_add_exp)
  also have "\<dots> = ((x - 1) AND NOT (mask k)) + 2 ^ k"
    by (simp add: and_not_mask_minus)
  finally show ?thesis .
qed

lemma round_up_least:
  fixes X K :: nat
  assumes "0 < K"
  defines "r \<equiv> (X + K - 1) - (X + K - 1) mod K"
  shows "K dvd r" and "X \<le> r" and "K dvd m \<Longrightarrow> X \<le> m \<Longrightarrow> r \<le> m"
proof -
  have r: "r = K * ((X + K - 1) div K)"
    unfolding r_def by (simp only: minus_mod_eq_mult_div)
  then show "K dvd r" by simp
  have "X + K - 1 < K + K * ((X + K - 1) div K)"
    using assms(1) by (rule dividend_less_times_div)
  then show "X \<le> r"
    unfolding r using assms(1) by linarith
  assume m: "K dvd m" "X \<le> m"
  then obtain q where q: "m = K * q" by (auto simp only: dvd_def)
  have "X + K - 1 \<le> K * q + (K - 1)"
    using m(2) assms(1) unfolding q by linarith
  then have "(X + K - 1) div K \<le> (K * q + (K - 1)) div K"
    by (rule div_le_mono)
  also have "\<dots> = q"
  proof -
    have "(K * q + (K - 1)) div K = q + (K - 1) div K"
      using assms(1) by (intro div_mult_self4) simp
    moreover have "(K - 1) div K = 0"
      using assms(1) by (intro div_less) simp
    ultimately show ?thesis by simp
  qed
  finally show "r \<le> m"
    unfolding r q by simp
qed

lemma unat_exp_word:
  assumes "k < LENGTH('a::len)"
  shows "unat (2 ^ k :: 'a word) = 2 ^ k"
proof -
  have "(2::nat) ^ k < 2 ^ LENGTH('a)"
    using assms by (intro power_strict_increasing) simp_all
  then have "unat (of_nat (2 ^ k) :: 'a word) = 2 ^ k"
    by (simp only: unat_of_nat mod_less take_bit_nat_def)
  then show ?thesis by simp
qed

lemma unat_LCTF_ALIGN_OFFS:
  fixes x :: "'a::len word"
  assumes "k < LENGTH('a)" and "unat x + 2 ^ k - 1 < 2 ^ LENGTH('a)"
  shows "unat (LCTF_ALIGN_OFFS x (2 ^ k))
    = (unat x + 2 ^ k - 1) - (unat x + 2 ^ k - 1) mod 2 ^ k"
proof -
  define y where "y = x + (2 ^ k - 1)"
  note e = unat_exp_word [OF assms(1)]
  then have "(2 ^ k :: 'a word) \<noteq> 0"
    by (metis power_not_zero unat_0 zero_neq_numeral)
  then have "unat (2 ^ k - 1 :: 'a word) = unat (2 ^ k :: 'a word) - 1"
    by (rule unat_minus_one)
  then have p: "unat (2 ^ k - 1 :: 'a word) = 2 ^ k - 1"
    by (simp only: e)
  have "unat x + unat (2 ^ k - 1 :: 'a word) < 2 ^ LENGTH('a)"
    using assms(2) p by simp
  then have y: "unat y = unat x + 2 ^ k - 1"
    unfolding y_def using p by (simp add: unat_add_lem [THEN iffD1])
  have "take_bit k y \<le> y"
    by (simp add: word_le_nat_alt unsigned_take_bit_eq take_bit_nat_def)
  then have "unat (y - take_bit k y) = unat y - unat y mod 2 ^ k"
    by (simp add: unat_sub unsigned_take_bit_eq take_bit_nat_def)
  moreover have "LCTF_ALIGN_OFFS x (2 ^ k) = y - take_bit k y"
    by (simp only: LCTF_ALIGN_OFFS_def y_def and_not_mask_minus flip: mask_eq_decr_exp)
  ultimately show ?thesis
    using y by simp
qed

text \<open>
  Claim C10. For an alignment that is a power of two representable in the word
  (\<open>align = 2 ^ k\<close> with \<open>k < LENGTH('a)\<close>) and every \<open>x\<close>, \<open>P2ROUNDUP\<close> and
  \<open>LCTF_ALIGN_OFFS\<close> compute the same word, wrap-around included; and when
  \<open>x + align - 1\<close> does not overflow the word, that value is a multiple of \<open>align\<close>,
  at least \<open>x\<close>, and no larger than any other multiple of \<open>align\<close> that is at least
  \<open>x\<close>.
\<close>

theorem P2ROUNDUP_eq_LCTF_ALIGN_OFFS:
  fixes x align :: "'a::len word"
  assumes "align = 2 ^ k" and "k < LENGTH('a)"
  shows "P2ROUNDUP x align = LCTF_ALIGN_OFFS x align \<and>
    (unat x + unat align - 1 < 2 ^ LENGTH('a) \<longrightarrow>
       unat align dvd unat (P2ROUNDUP x align) \<and>
       unat x \<le> unat (P2ROUNDUP x align) \<and>
       (\<forall>m. unat align dvd m \<and> unat x \<le> m \<longrightarrow> unat (P2ROUNDUP x align) \<le> m))"
proof -
  have eq: "P2ROUNDUP x align = LCTF_ALIGN_OFFS x align"
    unfolding assms(1) by (simp only: P2ROUNDUP_alt LCTF_ALIGN_OFFS_alt)
  have eq': "P2ROUNDUP x (2 ^ k) = LCTF_ALIGN_OFFS x (2 ^ k)"
    by (simp only: P2ROUNDUP_alt LCTF_ALIGN_OFFS_alt)
  have a: "unat align = 2 ^ k"
    unfolding assms(1) by (rule unat_exp_word [OF assms(2)])
  have pos: "(0::nat) < 2 ^ k"
    by simp
  {
    assume "unat x + unat align - 1 < 2 ^ LENGTH('a)"
    then have "unat x + 2 ^ k - 1 < 2 ^ LENGTH('a)"
      by (simp only: a)
    then have r: "unat (P2ROUNDUP x align)
        = (unat x + 2 ^ k - 1) - (unat x + 2 ^ k - 1) mod 2 ^ k"
      unfolding assms(1) eq' by (rule unat_LCTF_ALIGN_OFFS [OF assms(2)])
    have "unat align dvd unat (P2ROUNDUP x align)"
      unfolding r a by (rule round_up_least(1) [OF pos])
    moreover have "unat x \<le> unat (P2ROUNDUP x align)"
      unfolding r by (rule round_up_least(2) [OF pos])
    moreover have "\<forall>m. unat align dvd m \<and> unat x \<le> m \<longrightarrow> unat (P2ROUNDUP x align) \<le> m"
      unfolding r a using round_up_least(3) [OF pos] by blast
    ultimately have "unat align dvd unat (P2ROUNDUP x align) \<and>
       unat x \<le> unat (P2ROUNDUP x align) \<and>
       (\<forall>m. unat align dvd m \<and> unat x \<le> m \<longrightarrow> unat (P2ROUNDUP x align) \<le> m)"
      by blast
  }
  with eq show ?thesis by blast
qed

theorem P2ROUNDUP_eq_LCTF_ALIGN_OFFS_witness:
  "P2ROUNDUP (0x1234 :: 32 word) 0x100 = LCTF_ALIGN_OFFS 0x1234 0x100 \<and>
   unat (0x100 :: 32 word) dvd unat (P2ROUNDUP (0x1234 :: 32 word) 0x100) \<and>
   unat (0x1234 :: 32 word) \<le> unat (P2ROUNDUP (0x1234 :: 32 word) 0x100) \<and>
   unat (P2ROUNDUP (0x1234 :: 32 word) 0x100) \<le> 0x1300"
proof -
  have a: "(0x100 :: 32 word) = 2 ^ 8" by simp
  have k: "8 < LENGTH(32)" by simp
  have n: "unat (0x1234 :: 32 word) + unat (0x100 :: 32 word) - 1 < 2 ^ LENGTH(32)"
    by simp
  have m: "unat (0x100 :: 32 word) dvd 0x1300 \<and> unat (0x1234 :: 32 word) \<le> 0x1300"
    by simp
  from P2ROUNDUP_eq_LCTF_ALIGN_OFFS [OF a k, of "0x1234"] n m show ?thesis
    by blast
qed

section \<open>Identifier namespace: round trip and disjointness\<close>

lemma uint_succ_pow2:
  fixes p :: "32 word"
  assumes "uint p + 1 = 2 ^ k" and "k < 32"
  shows "uint (p + 1) = 2 ^ k" and "uint p = 2 ^ k - 1"
proof -
  have "(2::int) ^ k < 2 ^ 32"
    using assms(2) by (intro power_strict_increasing) simp_all
  then have "(2::int) ^ k mod 2 ^ 32 = 2 ^ k"
    by (intro mod_pos_pos_trivial) simp_all
  then show "uint (p + 1) = 2 ^ k"
    using assms(1) by (simp add: uint_word_ariths take_bit_eq_mod)
  show "uint p = 2 ^ k - 1"
    using assms(1) by simp
qed

lemma mod_exp_shift:
  fixes x :: int
  assumes "2 ^ k \<le> x" and "x < 2 * 2 ^ k"
  shows "x mod 2 ^ k = x - 2 ^ k"
proof -
  have "x mod 2 ^ k = (x - 2 ^ k) mod 2 ^ k" by simp
  also have "\<dots> = x - 2 ^ k" using assms by (intro mod_pos_pos_trivial) simp_all
  finally show ?thesis .
qed

lemma or_exp_int:
  fixes i :: int
  assumes "0 \<le> i" and "i < 2 ^ k"
  shows "i OR 2 ^ k = i + 2 ^ k"
proof -
  have "take_bit k i = i"
    using assms by (simp add: take_bit_int_eq_self)
  then have "\<And>n. bit i n \<Longrightarrow> n < k"
    by (metis bit_take_bit_iff)
  then have "i + 2 ^ k = i OR 2 ^ k"
    by (intro disjunctive_add) (auto simp: bit_exp_iff)
  then show ?thesis by simp
qed

lemma and_mask_int: "(x::int) AND (2 ^ k - 1) = x mod 2 ^ k"
  by (simp add: take_bit_eq_mod flip: mask_eq_exp_minus_1 take_bit_eq_mask)

text \<open>
  Claim C1, as stated, quantifies over every identifier of a container with boundary
  \<open>b\<close>. With boundary 3 (so \<open>b + 1 = 4\<close>) the identifier 9 is above the boundary,
  decodes to index \<open>9 & 3 = 1\<close> and re-encodes to \<open>1 | 4 = 5\<close>.
\<close>

theorem namespace_roundtrip_counterexample:
  "LCTF_INDEX_TO_TYPE 3 (LCTF_TYPE_TO_INDEX 3 9) (LCTF_TYPE_ISCHILD 3 9) \<noteq> 9"
  by (simp add: LCTF_INDEX_TO_TYPE_def LCTF_TYPE_TO_INDEX_def LCTF_TYPE_ISCHILD_def)

text \<open>
  Claim C1, amended. Let the boundary be one less than a power of two that
  \<open>uint32_t\<close> holds (\<open>parmax + 1 = 2 ^ k\<close> over the integers, \<open>k < 32\<close>). Then
  re-encoding the decoded identifier gives the identifier back exactly for the identifiers
  from 0 to \<open>2 * parmax + 1\<close>: the parent range \<open>0 .. parmax\<close> and the child range
  \<open>parmax + 1 .. 2 * parmax + 1\<close>. Outside that range the round trip fails.
\<close>

theorem namespace_roundtrip_iff:
  assumes "uint parmax + 1 = 2 ^ k" and "k < 32"
  shows "LCTF_INDEX_TO_TYPE parmax (LCTF_TYPE_TO_INDEX parmax x)
           (LCTF_TYPE_ISCHILD parmax x) = x
     \<longleftrightarrow> 0 \<le> x \<and> x \<le> 2 * uint parmax + 1"
proof -
  note u = uint_succ_pow2 [OF assms]
  have m: "0 \<le> x mod 2 ^ k" "x mod 2 ^ k < 2 ^ k"
    by simp_all
  show ?thesis
  proof (cases "x > uint parmax")
    case True
    then have "LCTF_INDEX_TO_TYPE parmax (LCTF_TYPE_TO_INDEX parmax x)
          (LCTF_TYPE_ISCHILD parmax x) = x mod 2 ^ k + 2 ^ k"
      by (simp add: LCTF_INDEX_TO_TYPE_def LCTF_TYPE_TO_INDEX_def LCTF_TYPE_ISCHILD_def
          u and_mask_int or_exp_int)
    moreover have "x mod 2 ^ k + 2 ^ k = x \<longleftrightarrow> x < 2 * 2 ^ k"
    proof
      assume "x mod 2 ^ k + 2 ^ k = x"
      then have "x = x mod 2 ^ k + 2 ^ k" by simp
      also have "\<dots> < 2 ^ k + 2 ^ k" using m by simp
      finally show "x < 2 * 2 ^ k" by simp
    next
      assume "x < 2 * 2 ^ k"
      with True u have "x mod 2 ^ k = x - 2 ^ k"
        by (intro mod_exp_shift) simp_all
      then show "x mod 2 ^ k + 2 ^ k = x" by simp
    qed
    ultimately show ?thesis using True u by auto
  next
    case False
    then have "LCTF_INDEX_TO_TYPE parmax (LCTF_TYPE_TO_INDEX parmax x)
          (LCTF_TYPE_ISCHILD parmax x) = x mod 2 ^ k"
      by (simp add: LCTF_INDEX_TO_TYPE_def LCTF_TYPE_TO_INDEX_def LCTF_TYPE_ISCHILD_def
          u and_mask_int)
    moreover have "x mod 2 ^ k = x \<longleftrightarrow> 0 \<le> x"
    proof
      assume "x mod 2 ^ k = x"
      then show "0 \<le> x" using m by simp
    next
      assume "0 \<le> x"
      with False u show "x mod 2 ^ k = x" by simp
    qed
    ultimately show ?thesis using False u by auto
  qed
qed

theorem namespace_roundtrip_iff_witness:
  "LCTF_INDEX_TO_TYPE 3 (LCTF_TYPE_TO_INDEX 3 6) (LCTF_TYPE_ISCHILD 3 6) = 6"
proof -
  have b: "uint (3 :: 32 word) + 1 = 2 ^ 2" by simp
  have k: "(2::nat) < 32" by simp
  have r: "(0::int) \<le> 6 \<and> 6 \<le> 2 * uint (3 :: 32 word) + 1" by simp
  from namespace_roundtrip_iff [OF b k, of 6] r show ?thesis
    by blast
qed

text \<open>
  Claim C6. For a boundary that is one less than a power of two that \<open>uint32_t\<close>
  holds, and local indices \<open>i\<close> and \<open>j\<close> from 0 to the boundary, the child encoding of
  \<open>i\<close> differs from the parent encoding of \<open>j\<close>: the first is above the boundary
  (a child identifier), the second is not (a parent identifier).
\<close>

theorem parent_child_disjoint:
  assumes "uint parmax + 1 = 2 ^ k" and "k < 32"
    and "0 \<le> i" and "i \<le> uint parmax"
    and "0 \<le> j" and "j \<le> uint parmax"
  shows "LCTF_INDEX_TO_TYPE parmax i True \<noteq> LCTF_INDEX_TO_TYPE parmax j False \<and>
    LCTF_INDEX_TO_TYPE parmax i True = i + (uint parmax + 1) \<and>
    LCTF_TYPE_ISCHILD parmax (LCTF_INDEX_TO_TYPE parmax i True) \<and>
    \<not> LCTF_TYPE_ISPARENT parmax (LCTF_INDEX_TO_TYPE parmax i True) \<and>
    LCTF_TYPE_ISPARENT parmax (LCTF_INDEX_TO_TYPE parmax j False) \<and>
    \<not> LCTF_TYPE_ISCHILD parmax (LCTF_INDEX_TO_TYPE parmax j False)"
proof -
  note u = uint_succ_pow2 [OF assms(1,2)]
  have "i < 2 ^ k"
    using assms(4) u by simp
  then have c: "LCTF_INDEX_TO_TYPE parmax i True = i + 2 ^ k"
    using assms(3) by (simp add: LCTF_INDEX_TO_TYPE_def u or_exp_int)
  have p: "LCTF_INDEX_TO_TYPE parmax j False = j"
    by (simp add: LCTF_INDEX_TO_TYPE_def)
  show ?thesis
    unfolding c p LCTF_TYPE_ISCHILD_def LCTF_TYPE_ISPARENT_def
    using assms(3-6) u by simp
qed

theorem parent_child_disjoint_witness:
  "LCTF_INDEX_TO_TYPE 7 5 True \<noteq> LCTF_INDEX_TO_TYPE 7 5 False \<and>
   LCTF_INDEX_TO_TYPE 7 5 True = 13 \<and>
   LCTF_TYPE_ISCHILD 7 (LCTF_INDEX_TO_TYPE 7 5 True) \<and>
   LCTF_TYPE_ISPARENT 7 (LCTF_INDEX_TO_TYPE 7 5 False)"
proof -
  have b: "uint (7 :: 32 word) + 1 = 2 ^ 3" by simp
  have k: "(3::nat) < 32" by simp
  have i: "(0::int) \<le> 5" "(5::int) \<le> uint (7 :: 32 word)" by simp_all
  have e: "5 + (uint (7 :: 32 word) + 1) = 13" by simp
  from parent_child_disjoint [OF b k i i] show ?thesis
    unfolding e by blast
qed

text \<open>
  Claim C5, as stated, says that with boundary 0 the local decode loses no information.
  The decode is the mask \<open>id & 0\<close>: the identifiers 1 and 2 decode to the same index.
\<close>

theorem no_parent_decode_counterexample:
  "LCTF_TYPE_TO_INDEX 0 1 = LCTF_TYPE_TO_INDEX 0 2"
  by (simp add: LCTF_TYPE_TO_INDEX_def)

text \<open>
  Claim C5, amended. With boundary 0 every identifier from 1 up is a child (local)
  identifier and none is a parent identifier; the mask decode maps every one of them
  to index 0, and re-encoding that index gives 1 whatever the identifier was.
\<close>

theorem no_parent_ids_local:
  assumes "0 < x"
  shows "\<not> LCTF_TYPE_ISPARENT 0 x \<and> LCTF_TYPE_ISCHILD 0 x \<and>
    LCTF_TYPE_TO_INDEX 0 x = 0 \<and>
    LCTF_INDEX_TO_TYPE 0 (LCTF_TYPE_TO_INDEX 0 x) (LCTF_TYPE_ISCHILD 0 x) = 1"
  using assms
  by (simp add: LCTF_TYPE_ISPARENT_def LCTF_TYPE_ISCHILD_def LCTF_TYPE_TO_INDEX_def
      LCTF_INDEX_TO_TYPE_def)

theorem no_parent_ids_local_witness:
  "\<not> LCTF_TYPE_ISPARENT 0 2 \<and> LCTF_TYPE_ISCHILD 0 2 \<and> LCTF_TYPE_TO_INDEX 0 2 = 0 \<and>
   LCTF_INDEX_TO_TYPE 0 (LCTF_TYPE_TO_INDEX 0 2) (LCTF_TYPE_ISCHILD 0 2) = 1"
proof -
  have p: "(0::int) < 2" by simp
  from no_parent_ids_local [OF p] show ?thesis .
qed

section \<open>Declaration renderer: precedence and out-of-memory behaviour\<close>

lemma ctf_decl_node_add_frame:
  "cd_buf (ctf_decl_node_add cd type kind n prec q) = cd_buf cd"
  "cd_enomem (ctf_decl_node_add cd type kind n prec q) = cd_enomem cd"
  "cd_err (ctf_decl_node_add cd type kind n prec q) = cd_err cd"
  by (simp_all add: ctf_decl_node_add_def Let_def)

lemma ctf_decl_push_frame:
  "cd_buf (ctf_decl_push depth fp type cd) = cd_buf cd \<and>
   cd_enomem (ctf_decl_push depth fp type cd) = cd_enomem cd \<and>
   (cd_err (ctf_decl_push depth fp type cd) = cd_err cd \<or>
    cd_err (ctf_decl_push depth fp type cd) = Some InvalidId)"
proof (induction depth arbitrary: type cd)
  case 0
  show ?case by simp
next
  case (Suc depth)
  show ?case
  proof (cases "fp type")
    case None
    then show ?thesis by simp
  next
    case (Some tp)
    note ih = Suc.IH [of "td_type tp" cd]
    show ?thesis
      using ih Some
      by (cases "td_kind tp") (simp_all add: ctf_decl_node_add_frame Let_def)
  qed
qed

lemma ctf_decl_sprintf_sticky:
  "cd_enomem cd \<noteq> 0 \<Longrightarrow> fold ctf_decl_sprintf ps (cd, heap) = (cd, heap)"
  by (induction ps) simp_all

lemma ctf_decl_sprintf_fold:
  assumes "cd_enomem cd = 0" and "cd_buf cd = Some b"
  shows "cd_buf (fst (fold ctf_decl_sprintf ps (cd, heap)))
      = Some (b @ concat (case heap of None \<Rightarrow> ps | Some j \<Rightarrow> take j ps)) \<and>
    (cd_enomem (fst (fold ctf_decl_sprintf ps (cd, heap))) \<noteq> 0
      \<longleftrightarrow> (\<exists>j. heap = Some j \<and> j < length ps))"
  using assms
proof (induction ps arbitrary: cd b heap)
  case Nil
  then show ?case by (simp split: option.splits)
next
  case (Cons s ps)
  show ?case
  proof (cases heap)
    case None
    let ?cd = "cd\<lparr> cd_buf := ctf_str_append (cd_buf cd) s \<rparr>"
    have "cd_enomem ?cd = 0" "cd_buf ?cd = Some (b @ s)"
      using Cons.prems by simp_all
    from Cons.IH [OF this, of None] show ?thesis
      using Cons.prems None by simp
  next
    case (Some j)
    show ?thesis
    proof (cases j)
      case 0
      let ?cd = "cd\<lparr> cd_enomem := 1 \<rparr>"
      have "fold ctf_decl_sprintf ps (?cd, Some 0) = (?cd, Some 0)"
        by (rule ctf_decl_sprintf_sticky) simp
      then show ?thesis
        using Cons.prems Some 0 by simp
    next
      case (Suc left)
      let ?cd = "cd\<lparr> cd_buf := ctf_str_append (cd_buf cd) s \<rparr>"
      have "cd_enomem ?cd = 0" "cd_buf ?cd = Some (b @ s)"
        using Cons.prems by simp_all
      from Cons.IH [OF this, of "Some left"] show ?thesis
        using Cons.prems Some Suc by simp
    qed
  qed
qed

lemma ctf_decl_push_err:
  "cd_err cd = None \<Longrightarrow>
   cd_err (ctf_decl_push depth fp type cd)
     = (if ctf_chain_ok depth fp type then None else Some InvalidId)"
proof (induction depth arbitrary: type cd)
  case 0
  show ?case by simp
next
  case (Suc depth)
  show ?case
  proof (cases "fp type")
    case None
    then show ?thesis by simp
  next
    case (Some tp)
    note ih = Suc.IH [OF Suc.prems, of "td_type tp"]
    show ?thesis
      using ih Some Suc.prems
      by (cases "td_kind tp") (simp_all add: ctf_decl_node_add_frame Let_def)
  qed
qed

lemma ctf_chain_ok_deeper:
  "ctf_chain_ok depth fp type \<Longrightarrow> ctf_chain_ok (depth + n) fp type"
proof (induction depth arbitrary: type)
  case 0
  then show ?case by simp
next
  case (Suc depth)
  show ?case
  proof (cases "fp type")
    case None
    then show ?thesis using Suc.prems by simp
  next
    case (Some tp)
    show ?thesis
      using Suc.prems Some Suc.IH [of "td_type tp"]
      by (cases "td_kind tp") auto
  qed
qed

lemma ctf_decl_push_deeper:
  "ctf_chain_ok depth fp type \<Longrightarrow>
   ctf_decl_push (depth + n) fp type cd = ctf_decl_push depth fp type cd"
proof (induction depth arbitrary: type cd)
  case 0
  then show ?case by simp
next
  case (Suc depth)
  show ?case
  proof (cases "fp type")
    case None
    then show ?thesis using Suc.prems by simp
  next
    case (Some tp)
    show ?thesis
      using Suc.prems Some Suc.IH [of "td_type tp" cd]
      by (cases "td_kind tp") auto
  qed
qed

lemma ctf_type_aname_cases:
  assumes cd: "cd = ctf_decl_push depth fp type ctf_decl_init"
    and ps: "ps = ctf_decl_pieces fp cd ident"
  shows "ctf_type_aname depth fp type ident heap =
    (if ctf_chain_ok depth fp type
     then Inr (Some (concat (case heap of None \<Rightarrow> ps | Some j \<Rightarrow> take j ps)),
               \<exists>j. heap = Some j \<and> j < length ps)
     else Inl InvalidId)"
proof -
  have f: "cd_buf cd = Some []" "cd_enomem cd = 0"
    using ctf_decl_push_frame [of depth fp type ctf_decl_init]
    by (simp_all add: cd ctf_decl_init_def)
  have e: "cd_err cd = (if ctf_chain_ok depth fp type then None else Some InvalidId)"
    unfolding cd by (rule ctf_decl_push_err) (simp add: ctf_decl_init_def)
  show ?thesis
  proof (cases "ctf_chain_ok depth fp type")
    case True
    from ctf_decl_sprintf_fold [OF f(2) f(1), of ps heap]
    show ?thesis
      using True e by (simp add: ctf_type_aname_def ctf_decl_buf_def Let_def flip: cd ps)
  next
    case False
    then show ?thesis
      using e by (simp add: ctf_type_aname_def Let_def flip: cd)
  qed
qed

lemma ctf_utoa_10: "ctf_utoa 10 = ''10''"
  by code_simp

subsection \<open>Declarator precedence\<close>

text \<open>
  Claim C7. Let a type table hold \<open>int\<close>, a pointer to it and an array of
  ten such pointers, and also an array of ten \<open>int\<close> and a pointer to that
  array. With identifier \<open>arr\<close> and an allocator that never fails, the
  renderer produces exactly \<open>int *arr[10]\<close> for the array of pointers and
  \<open>int (*arr)[10]\<close> for the pointer to the array, whatever the depth
  allowed beyond the three links of the chain. In both cases the push leaves one node
  on each of the base, pointer and array levels and none on the function level, and the
  pieces are printed in the order shown: the prefix operator before the identifier, the
  suffix operator after it, the parentheses around the pointer that binds against the
  lexical order.
\<close>

theorem decl_precedence:
  assumes "fp i = Some ti" and "td_kind ti = CTF_K_INTEGER" and "td_name ti = ''int''"
    and "fp p = Some tp" and "td_kind tp = CTF_K_POINTER" and "td_type tp = i"
    and "fp a = Some ta" and "td_kind ta = CTF_K_ARRAY" and "td_type ta = p"
    and "td_nelems ta = 10"
    and "fp a' = Some ta'" and "td_kind ta' = CTF_K_ARRAY" and "td_type ta' = i"
    and "td_nelems ta' = 10"
    and "fp p' = Some tp'" and "td_kind tp' = CTF_K_POINTER" and "td_type tp' = a'"
  shows "ctf_type_aname (Suc (Suc (Suc depth))) fp a ''arr'' None
      = Inr (Some ''int *arr[10]'', False) \<and>
    ctf_type_aname (Suc (Suc (Suc depth))) fp p' ''arr'' None
      = Inr (Some ''int (*arr)[10]'', False) \<and>
    cd_levels (ctf_decl_push (Suc (Suc (Suc depth))) fp a ctf_decl_init) = [1, 1, 1, 0] \<and>
    cd_levels (ctf_decl_push (Suc (Suc (Suc depth))) fp p' ctf_decl_init) = [1, 1, 1, 0] \<and>
    ctf_decl_pieces fp (ctf_decl_push (Suc (Suc (Suc depth))) fp a ctf_decl_init) ''arr''
      = [''int'', '' '', ''*'', ''arr'', ''[10]''] \<and>
    ctf_decl_pieces fp (ctf_decl_push (Suc (Suc (Suc depth))) fp p' ctf_decl_init) ''arr''
      = [''int'', '' '', ''('', ''*'', ''arr'', '')'', ''[10]'']"
  using assms
  by (simp add: ctf_type_aname_def ctf_decl_init_def ctf_decl_node_add_def Let_def
      ctf_decl_pieces_def ctf_decl_ident_pieces_def ctf_decl_node_text_def ctf_decl_buf_def
      ctf_utoa_10 cd_levels_def)

text \<open>
  The table \<open>decl_example\<close> satisfies the hypotheses.
\<close>

theorem decl_precedence_witness:
  "ctf_type_aname (Suc (Suc (Suc 0))) decl_example 3 ''arr'' None
      = Inr (Some ''int *arr[10]'', False) \<and>
   ctf_type_aname (Suc (Suc (Suc 0))) decl_example 5 ''arr'' None
      = Inr (Some ''int (*arr)[10]'', False)"
proof -
  have e: "decl_example 1 = Some \<lparr> td_kind = CTF_K_INTEGER, td_name = ''int'', td_type = 0, td_nelems = 0 \<rparr>"
    "decl_example 2 = Some \<lparr> td_kind = CTF_K_POINTER, td_name = [], td_type = 1, td_nelems = 0 \<rparr>"
    "decl_example 3 = Some \<lparr> td_kind = CTF_K_ARRAY, td_name = [], td_type = 2, td_nelems = 10 \<rparr>"
    "decl_example 4 = Some \<lparr> td_kind = CTF_K_ARRAY, td_name = [], td_type = 1, td_nelems = 10 \<rparr>"
    "decl_example 5 = Some \<lparr> td_kind = CTF_K_POINTER, td_name = [], td_type = 4, td_nelems = 0 \<rparr>"
    by (simp_all add: decl_example_def)
  from decl_precedence [OF e(1) _ _ e(2) _ _ e(3) _ _ _ e(4) _ _ _ e(5), of 0]
  show ?thesis by simp
qed

subsection \<open>Out of memory while printing\<close>

text \<open>
  Claim C9. For every type table, type identifier, depth, identifier to declare and
  allocator, the result of the renderer is determined as follows. It fails, with
  InvalidId, exactly when the chain of the type does not resolve within the depth (an
  identifier of the chain is unknown, or the chain is longer than the depth); the
  allocator has no part in that. In every other case it returns a buffer and the
  out-of-memory flag, whatever the allocator does: the buffer is not null, it is the
  concatenation of the pieces printed before the first growth that failed (all of them
  when none failed, the empty string when the first one failed), and the flag is set
  exactly when some growth failed. And a chain that resolves within some depth resolves
  within every greater depth, with the same result.
\<close>

theorem ctf_type_aname_never_null:
  "ctf_type_aname depth fp type ident heap =
     (if ctf_chain_ok depth fp type
      then Inr (Some (concat (case heap of
                   None \<Rightarrow> ctf_decl_pieces fp (ctf_decl_push depth fp type ctf_decl_init) ident
                 | Some j \<Rightarrow> take j
                     (ctf_decl_pieces fp (ctf_decl_push depth fp type ctf_decl_init) ident))),
                \<exists>j. heap = Some j \<and>
                  j < length (ctf_decl_pieces fp (ctf_decl_push depth fp type ctf_decl_init) ident))
      else Inl InvalidId) \<and>
   (ctf_chain_ok depth fp type \<longrightarrow>
      ctf_chain_ok (depth + n) fp type \<and>
      ctf_type_aname (depth + n) fp type ident heap = ctf_type_aname depth fp type ident heap)"
proof (intro conjI impI)
  show "ctf_type_aname depth fp type ident heap =
     (if ctf_chain_ok depth fp type
      then Inr (Some (concat (case heap of
                   None \<Rightarrow> ctf_decl_pieces fp (ctf_decl_push depth fp type ctf_decl_init) ident
                 | Some j \<Rightarrow> take j
                     (ctf_decl_pieces fp (ctf_decl_push depth fp type ctf_decl_init) ident))),
                \<exists>j. heap = Some j \<and>
                  j < length (ctf_decl_pieces fp (ctf_decl_push depth fp type ctf_decl_init) ident))
      else Inl InvalidId)"
    by (rule ctf_type_aname_cases [OF refl refl])
next
  assume c: "ctf_chain_ok depth fp type"
  then show "ctf_chain_ok (depth + n) fp type"
    by (rule ctf_chain_ok_deeper)
  show "ctf_type_aname (depth + n) fp type ident heap = ctf_type_aname depth fp type ident heap"
    by (simp add: ctf_type_aname_def ctf_decl_push_deeper [OF c])
qed

text \<open>
  The chain of type 5 resolves in three links. When the third growth fails the flag is
  set and the text of the first two pieces is returned, at depth 3 and at depth 7
  alike; when the first growth fails the empty string is returned, not null; the
  unknown identifier 6 gives InvalidId.
\<close>

theorem ctf_type_aname_never_null_witness:
  "ctf_type_aname (Suc (Suc (Suc 0))) decl_example 5 ''arr'' (Some 2)
     = Inr (Some ''int '', True) \<and>
   ctf_type_aname (Suc (Suc (Suc 0)) + 4) decl_example 5 ''arr'' (Some 2)
     = Inr (Some ''int '', True) \<and>
   ctf_type_aname (Suc (Suc (Suc 0))) decl_example 5 ''arr'' (Some 0)
     = Inr (Some [], True) \<and>
   ctf_type_aname (Suc (Suc (Suc 0))) decl_example 6 ''arr'' (Some 2) = Inl InvalidId"
proof -
  have e: "decl_example 1 = Some \<lparr> td_kind = CTF_K_INTEGER, td_name = ''int'', td_type = 0, td_nelems = 0 \<rparr>"
    "decl_example 4 = Some \<lparr> td_kind = CTF_K_ARRAY, td_name = [], td_type = 1, td_nelems = 10 \<rparr>"
    "decl_example 5 = Some \<lparr> td_kind = CTF_K_POINTER, td_name = [], td_type = 4, td_nelems = 0 \<rparr>"
    "decl_example 6 = None"
    by (simp_all add: decl_example_def)
  have p: "ctf_decl_pieces decl_example
      (ctf_decl_push (Suc (Suc (Suc 0))) decl_example 5 ctf_decl_init) ''arr''
      = [''int'', '' '', ''('', ''*'', ''arr'', '')'', ''[10]'']"
    using e by (simp add: ctf_decl_init_def ctf_decl_node_add_def Let_def
      ctf_decl_pieces_def ctf_decl_ident_pieces_def ctf_decl_node_text_def ctf_utoa_10)
  have c: "ctf_chain_ok (Suc (Suc (Suc 0))) decl_example 5"
    "\<not> ctf_chain_ok (Suc (Suc (Suc 0))) decl_example 6"
    using e by simp_all
  have t: "take 2 [''int'', '' '', ''('', ''*'', ''arr'', '')'', ''[10]''] = [''int'', '' '']"
    by (simp add: numeral_2_eq_2)
  note a = ctf_type_aname_never_null [where depth = "Suc (Suc (Suc 0))" and fp = decl_example
      and type = 5 and ident = "''arr''" and heap = "Some 2" and n = 4]
  note b = ctf_type_aname_never_null [where depth = "Suc (Suc (Suc 0))" and fp = decl_example
      and type = 5 and ident = "''arr''" and heap = "Some 0" and n = 0]
  note d = ctf_type_aname_never_null [where depth = "Suc (Suc (Suc 0))" and fp = decl_example
      and type = 6 and ident = "''arr''" and heap = "Some 2" and n = 0]
  show ?thesis
    using a [unfolded p] b [unfolded p] d c
    by (simp add: t del: ctf_decl_push.simps ctf_chain_ok.simps)
qed

section \<open>Dynamic overlay: consistency, rollback, lookup and commit\<close>

lemma dtd_newest_append:
  "dtd_newest (ds @ [d]) k =
     (if dtd_key d = Some k then Some d else dtd_newest ds k)"
  by (induction ds) (auto split: option.splits)

lemma dtd_newest_filter:
  "(\<And>e. e \<in> set ds \<Longrightarrow> \<not> P e \<Longrightarrow> dtd_key e \<noteq> Some k) \<Longrightarrow>
   dtd_newest (filter P ds) k = dtd_newest ds k"
  by (induction ds) (auto split: option.splits)

lemma dtd_newest_Some:
  "dtd_newest ds k = Some d \<Longrightarrow> d \<in> set ds \<and> dtd_key d = Some k"
  by (induction ds) (auto split: option.splits if_splits)

lemma dtd_index_append:
  "dtd_index (ds @ [d]) i =
     (case dtd_index ds i of Some e \<Rightarrow> Some e
      | None \<Rightarrow> if dtd_type d = i then Some d else None)"
  by (induction ds) (auto simp: dtd_index_def)

lemma dtd_index_None: "dtd_index ds i = None \<longleftrightarrow> i \<notin> dtd_type ` set ds"
  by (induction ds) (auto simp: dtd_index_def)

lemma dtd_index_Some:
  "distinct (map dtd_type ds) \<Longrightarrow> d \<in> set ds \<Longrightarrow> dtd_index ds (dtd_type d) = Some d"
  by (induction ds) (auto simp: dtd_index_def)

lemma dtd_index_filter:
  "dtd_index (filter (\<lambda>e. dtd_type e \<noteq> j) ds) i = (if i = j then None else dtd_index ds i)"
  by (induction ds) (auto simp: dtd_index_def)

lemma dvd_index_append:
  "dvd_index (vs @ [v]) n =
     (case dvd_index vs n of Some e \<Rightarrow> Some e
      | None \<Rightarrow> if dvd_name v = n then Some v else None)"
  by (induction vs) (auto simp: dvd_index_def)

lemma dvd_index_None: "dvd_index vs n = None \<longleftrightarrow> n \<notin> dvd_name ` set vs"
  by (induction vs) (auto simp: dvd_index_def)

lemma dvd_index_Some:
  "distinct (map dvd_name vs) \<Longrightarrow> v \<in> set vs \<Longrightarrow> dvd_index vs (dvd_name v) = Some v"
  by (induction vs) (auto simp: dvd_index_def)

lemma dvd_index_filter:
  "dvd_index (filter (\<lambda>e. dvd_name e \<noteq> m) vs) n = (if n = m then None else dvd_index vs n)"
  by (induction vs) (auto simp: dvd_index_def)

lemma ctf_dtd_insert_overlay_ok:
  assumes "overlay_ok fp"
    and "dtd_type d = ctf_dtnextid fp" and "dtd_snapshots d \<le> ctf_snapshots fp"
  shows "overlay_ok ((ctf_dtd_insert fp d)\<lparr> ctf_dtnextid := ctf_dtnextid fp + 1 \<rparr>)"
proof -
  have inv: "ctf_dthash fp = dtd_index (ctf_dtdefs fp)"
    "ctf_dtbyname fp = dtd_newest (ctf_dtdefs fp)"
    using assms(1) by (simp_all add: overlay_ok_def)
  have fresh: "dtd_type d \<notin> dtd_type ` set (ctf_dtdefs fp)"
    using assms(1,2) by (auto simp: overlay_ok_def list_all_iff)
  then have i: "dtd_index (ctf_dtdefs fp) (dtd_type d) = None"
    by (simp add: dtd_index_None)
  have h: "(ctf_dthash fp)(dtd_type d \<mapsto> d) = dtd_index (ctf_dtdefs fp @ [d])"
    using i by (auto simp: fun_eq_iff dtd_index_append inv split: option.splits)
  have n: "(case dtd_key d of None \<Rightarrow> ctf_dtbyname fp
            | Some k \<Rightarrow> (ctf_dtbyname fp)(k \<mapsto> d)) = dtd_newest (ctf_dtdefs fp @ [d])"
    by (auto simp: fun_eq_iff dtd_newest_append inv split: option.splits)
  have rest: "distinct (map dtd_type (ctf_dtdefs fp @ [d]))"
    "list_all (\<lambda>e. dtd_type e < ctf_dtnextid fp + 1 \<and> dtd_snapshots e \<le> ctf_snapshots fp)
       (ctf_dtdefs fp @ [d])"
    using assms fresh by (auto simp: overlay_ok_def list_all_iff)
  show ?thesis
    using assms(1) rest
    by (simp add: overlay_ok_def ctf_dtd_insert_def h h [unfolded inv] n n [unfolded inv])
qed

lemma add_type_overlay_ok:
  assumes "overlay_ok fp"
  shows "overlay_ok (snd (add_type kind name payload fp))"
proof (cases "ctf_dtu_fits kind (snd payload)")
  case False
  then show ?thesis using assms by (simp add: add_type_def)
next
  case True
  then show ?thesis
    by (simp add: add_type_def Let_def ctf_dtd_insert_overlay_ok [OF assms])
qed

lemma ctf_dtd_delete_overlay_ok:
  assumes "overlay_ok fp"
    and "\<And>e. e \<in> set (ctf_dtdefs fp) \<Longrightarrow> dtd_type e = dtd_type d \<Longrightarrow> e = d"
  shows "overlay_ok (ctf_dtd_delete fp d)"
proof -
  let ?rest = "filter (\<lambda>e. dtd_type e \<noteq> dtd_type d) (ctf_dtdefs fp)"
  have inv: "ctf_dthash fp = dtd_index (ctf_dtdefs fp)"
    "ctf_dtbyname fp = dtd_newest (ctf_dtdefs fp)"
    using assms(1) by (simp_all add: overlay_ok_def)
  have k: "dtd_newest ?rest k = dtd_newest (ctf_dtdefs fp) k" if "dtd_key d \<noteq> Some k" for k
    using that assms(2) by (intro dtd_newest_filter) auto
  have n: "(case dtd_key d of None \<Rightarrow> ctf_dtbyname fp
            | Some k \<Rightarrow> (ctf_dtbyname fp)(k := dtd_newest ?rest k)) = dtd_newest ?rest"
    using k by (auto simp: fun_eq_iff inv split: option.splits)
  have h: "(ctf_dthash fp)(dtd_type d := None) = dtd_index ?rest"
    by (auto simp: fun_eq_iff dtd_index_filter inv)
  have rest: "distinct (map dtd_type ?rest)"
    "list_all (\<lambda>e. dtd_type e < ctf_dtnextid fp \<and> dtd_snapshots e \<le> ctf_snapshots fp) ?rest"
    using assms(1) by (auto simp: overlay_ok_def list_all_iff distinct_map_filter)
  show ?thesis
    using assms(1) rest
    by (simp add: overlay_ok_def ctf_dtd_delete_def Let_def h h [unfolded inv] n n [unfolded inv])
qed

lemma ctf_dvd_delete_overlay_ok:
  assumes "overlay_ok fp"
  shows "overlay_ok (ctf_dvd_delete fp v)"
proof -
  let ?rest = "filter (\<lambda>e. dvd_name e \<noteq> dvd_name v) (ctf_dvdefs fp)"
  have inv: "ctf_dvhash fp = dvd_index (ctf_dvdefs fp)"
    using assms(1) by (simp add: overlay_ok_def)
  have h: "(ctf_dvhash fp)(dvd_name v := None) = dvd_index ?rest"
    by (auto simp: fun_eq_iff dvd_index_filter inv)
  have rest: "distinct (map dvd_name ?rest)"
    "list_all (\<lambda>e. dvd_snapshots e \<le> ctf_snapshots fp) ?rest"
    using assms(1) by (auto simp: overlay_ok_def list_all_iff distinct_map_filter)
  show ?thesis
    using assms(1) rest
    by (simp add: overlay_ok_def ctf_dvd_delete_def h [unfolded inv])
qed

lemma fold_ctf_dtd_delete:
  assumes "overlay_ok fp"
    and "\<And>d e. d \<in> set ds \<Longrightarrow> e \<in> set (ctf_dtdefs fp) \<Longrightarrow> dtd_type e = dtd_type d \<Longrightarrow> e = d"
  shows "overlay_ok (fold (\<lambda>d f. ctf_dtd_delete f d) ds fp) \<and>
    ctf_dtdefs (fold (\<lambda>d f. ctf_dtd_delete f d) ds fp)
      = filter (\<lambda>e. dtd_type e \<notin> dtd_type ` set ds) (ctf_dtdefs fp) \<and>
    ctf_dvdefs (fold (\<lambda>d f. ctf_dtd_delete f d) ds fp) = ctf_dvdefs fp"
  using assms
proof (induction ds arbitrary: fp)
  case Nil
  then show ?case by simp
next
  case (Cons d ds)
  have ok: "overlay_ok (ctf_dtd_delete fp d)"
    using Cons.prems by (intro ctf_dtd_delete_overlay_ok) auto
  have l: "ctf_dtdefs (ctf_dtd_delete fp d) = filter (\<lambda>e. dtd_type e \<noteq> dtd_type d) (ctf_dtdefs fp)"
    "ctf_dvdefs (ctf_dtd_delete fp d) = ctf_dvdefs fp"
    by (simp_all add: ctf_dtd_delete_def Let_def)
  have "overlay_ok (fold (\<lambda>d f. ctf_dtd_delete f d) ds (ctf_dtd_delete fp d)) \<and>
    ctf_dtdefs (fold (\<lambda>d f. ctf_dtd_delete f d) ds (ctf_dtd_delete fp d))
      = filter (\<lambda>e. dtd_type e \<notin> dtd_type ` set ds) (ctf_dtdefs (ctf_dtd_delete fp d)) \<and>
    ctf_dvdefs (fold (\<lambda>d f. ctf_dtd_delete f d) ds (ctf_dtd_delete fp d))
      = ctf_dvdefs (ctf_dtd_delete fp d)"
    using ok Cons.prems(2) by (intro Cons.IH) (auto simp: l)
  then show ?case
    by (auto simp: l intro: filter_cong)
qed

lemma fold_ctf_dvd_delete:
  assumes "overlay_ok fp"
  shows "overlay_ok (fold (\<lambda>v f. ctf_dvd_delete f v) vs fp) \<and>
    ctf_dvdefs (fold (\<lambda>v f. ctf_dvd_delete f v) vs fp)
      = filter (\<lambda>e. dvd_name e \<notin> dvd_name ` set vs) (ctf_dvdefs fp) \<and>
    ctf_dtdefs (fold (\<lambda>v f. ctf_dvd_delete f v) vs fp) = ctf_dtdefs fp"
  using assms
proof (induction vs arbitrary: fp)
  case Nil
  then show ?case by simp
next
  case (Cons v vs)
  have l: "ctf_dvdefs (ctf_dvd_delete fp v) = filter (\<lambda>e. dvd_name e \<noteq> dvd_name v) (ctf_dvdefs fp)"
    "ctf_dtdefs (ctf_dvd_delete fp v) = ctf_dtdefs fp"
    by (simp_all add: ctf_dvd_delete_def)
  from Cons.IH [OF ctf_dvd_delete_overlay_ok [OF Cons.prems]]
  show ?case
    by (auto simp: l intro: filter_cong)
qed

lemma filter_not_image:
  assumes "inj_on f (set xs)"
  shows "filter (\<lambda>e. f e \<notin> f ` set (filter P xs)) xs = filter (\<lambda>e. \<not> P e) xs"
proof (rule filter_cong [OF refl])
  fix e assume "e \<in> set xs"
  then show "(f e \<notin> f ` set (filter P xs)) = (\<not> P e)"
    using assms by (auto simp: inj_on_def)
qed

lemma rollback_too_old:
  "epoch_too_old target fp \<Longrightarrow> rollback target fp = (Inl InvalidEpoch, fp)"
  by (simp add: rollback_def)

lemma rollback_lists:
  assumes "overlay_ok fp" and "\<not> epoch_too_old target fp"
  shows "fst (rollback target fp) = Inr ()"
    and "overlay_ok (snd (rollback target fp))"
    and "ctf_dtdefs (snd (rollback target fp))
      = filter (\<lambda>d. dtd_snapshots d < target) (ctf_dtdefs fp)"
    and "ctf_dvdefs (snd (rollback target fp))
      = filter (\<lambda>v. dvd_snapshots v < target) (ctf_dvdefs fp)"
proof -
  define dtds where "dtds = rev (filter (\<lambda>d. target \<le> dtd_snapshots d) (ctf_dtdefs fp))"
  define dvds where "dvds = rev (filter (\<lambda>v. target \<le> dvd_snapshots v) (ctf_dvdefs fp))"
  define fp1 where "fp1 = fold (\<lambda>d f. ctf_dtd_delete f d) dtds fp"
  define fp2 where "fp2 = fold (\<lambda>v f. ctf_dvd_delete f v) dvds fp1"
  have r: "rollback target fp = (Inr (), fp2)"
    using assms(2) by (simp add: rollback_def Let_def fp2_def fp1_def dtds_def dvds_def)
  have it: "inj_on dtd_type (set (ctf_dtdefs fp))" and iv: "inj_on dvd_name (set (ctf_dvdefs fp))"
    using assms(1) by (simp_all add: overlay_ok_def distinct_map)
  have "\<And>d e. d \<in> set dtds \<Longrightarrow> e \<in> set (ctf_dtdefs fp) \<Longrightarrow> dtd_type e = dtd_type d \<Longrightarrow> e = d"
    using it by (auto simp: dtds_def inj_on_def)
  from fold_ctf_dtd_delete [OF assms(1) this]
  have 1: "overlay_ok fp1"
    "ctf_dtdefs fp1 = filter (\<lambda>e. dtd_type e \<notin> dtd_type ` set dtds) (ctf_dtdefs fp)"
    "ctf_dvdefs fp1 = ctf_dvdefs fp"
    by (simp_all add: fp1_def)
  from fold_ctf_dvd_delete [OF 1(1), of dvds]
  have 2: "overlay_ok fp2"
    "ctf_dvdefs fp2 = filter (\<lambda>e. dvd_name e \<notin> dvd_name ` set dvds) (ctf_dvdefs fp1)"
    "ctf_dtdefs fp2 = ctf_dtdefs fp1"
    by (simp_all add: fp2_def)
  have not_le: "\<And>a. (\<not> target \<le> a) = (a < target)"
    by auto
  show "fst (rollback target fp) = Inr ()" by (simp add: r)
  show "overlay_ok (snd (rollback target fp))" by (simp add: r 2)
  show "ctf_dtdefs (snd (rollback target fp))
      = filter (\<lambda>d. dtd_snapshots d < target) (ctf_dtdefs fp)"
    using filter_not_image [OF it, of "\<lambda>d. target \<le> dtd_snapshots d"]
    by (simp add: r 2 1 dtds_def not_le)
  show "ctf_dvdefs (snd (rollback target fp))
      = filter (\<lambda>v. dvd_snapshots v < target) (ctf_dvdefs fp)"
    using filter_not_image [OF iv, of "\<lambda>v. target \<le> dvd_snapshots v"]
    by (simp add: r 2 1 dvds_def not_le)
qed









lemma snapshot_overlay_ok: "overlay_ok fp \<Longrightarrow> overlay_ok (snd (snapshot fp))"
  by (auto simp: overlay_ok_def snapshot_def list_all_iff intro: le_SucI)



lemma ctf_create_overlay_ok: "overlay_ok ctf_create"
  by (simp add: overlay_ok_def ctf_create_def fun_eq_iff dtd_index_def dvd_index_def)

lemma three_epochs_overlay_ok: "overlay_ok three_epochs"
  unfolding three_epochs_def
  by (intro add_type_overlay_ok snapshot_overlay_ok ctf_create_overlay_ok)


lemma add_variable_overlay_ok:
  assumes "overlay_ok fp"
  shows "overlay_ok (snd (add_variable name type fp))"
proof (cases "ctf_dvd_lookup fp name")
  case (Some v)
  then show ?thesis using assms by (simp add: add_variable_def)
next
  case None
  define v where "v = \<lparr> dvd_name = name, dvd_type = type, dvd_snapshots = ctf_snapshots fp \<rparr>"
  have inv: "ctf_dvhash fp = dvd_index (ctf_dvdefs fp)"
    using assms by (simp add: overlay_ok_def)
  have i: "dvd_index (ctf_dvdefs fp) name = None"
    using None by (simp add: ctf_dvd_lookup_def inv)
  then have fresh: "name \<notin> dvd_name ` set (ctf_dvdefs fp)"
    by (simp add: dvd_index_None)
  have h: "(dvd_index (ctf_dvdefs fp))(name \<mapsto> v) = dvd_index (ctf_dvdefs fp @ [v])"
    using i by (auto simp: fun_eq_iff dvd_index_append v_def split: option.splits)
  have s: "snd (add_variable name type fp) = ctf_dvd_insert fp v"
    using None by (simp add: add_variable_def v_def)
  show ?thesis
    unfolding s using assms fresh h
    by (simp add: overlay_ok_def ctf_dvd_insert_def v_def)
qed

lemma commit_overlay_ok:
  assumes "overlay_ok fp"
  shows "overlay_ok (snd (commit env fp))"
  using assms
  by (simp add: commit_def Let_def overlay_ok_def fun_eq_iff dtd_index_def dvd_index_def)

subsection \<open>Commit is all-or-nothing\<close>

text \<open>
  Claim C2. A commit fails when a pending definition refers to a type that does not
  exist (InvalidId), when the new buffer does not fit the space available, or when its
  allocation fails (OutOfMemory); and whenever a commit fails, for whatever reason, the
  container it returns is the container it was given: buffer, static hashes and every
  pending definition included.
\<close>

theorem commit_atomic:
  "(\<not> ctf_refs_ok fp \<longrightarrow> commit env fp = (Inl InvalidId, fp)) \<and>
   (ctf_refs_ok fp \<and> env_space env < ctf_buffer_size (ctf_serialize fp) \<longrightarrow>
      commit env fp = (Inl OutOfMemory, fp)) \<and>
   (ctf_refs_ok fp \<and> \<not> env_alloc env \<longrightarrow> commit env fp = (Inl OutOfMemory, fp)) \<and>
   (\<forall>e. fst (commit env fp) = Inl e \<longrightarrow> snd (commit env fp) = fp)"
  by (simp add: commit_def Let_def)

text \<open>
  One failing commit for each reason.
\<close>

theorem commit_atomic_witness:
  "commit \<lparr> env_space = 10, env_alloc = True \<rparr> dangling = (Inl InvalidId, dangling) \<and>
   commit \<lparr> env_space = 0, env_alloc = True \<rparr> three_epochs = (Inl OutOfMemory, three_epochs) \<and>
   commit \<lparr> env_space = 10, env_alloc = False \<rparr> three_epochs = (Inl OutOfMemory, three_epochs)"
proof -
  have d: "\<not> ctf_refs_ok dangling"
    by (simp add: dangling_def add_type_def ctf_create_def ctf_dtu_fits_def
        ctf_dtd_insert_def Let_def ctf_refs_ok_def dtd_refs_def ctf_type_exists_def
        ctf_type_known_def)
  have t: "ctf_refs_ok three_epochs"
    by (simp add: three_epochs_def add_type_def snapshot_def ctf_create_def int_payload_def
        ctf_dtu_fits_def ctf_dtd_insert_def Let_def ctf_refs_ok_def dtd_refs_def)
  have s: "env_space \<lparr> env_space = 0, env_alloc = True \<rparr>
      < ctf_buffer_size (ctf_serialize three_epochs)"
    by (simp add: three_epochs_def add_type_def snapshot_def ctf_create_def int_payload_def
        ctf_dtu_fits_def ctf_dtd_insert_def Let_def ctf_buffer_size_def ctf_serialize_def)
  have n: "\<not> env_alloc \<lparr> env_space = 10, env_alloc = False \<rparr>"
    by simp
  from commit_atomic [of dangling "\<lparr> env_space = 10, env_alloc = True \<rparr>"]
    commit_atomic [of three_epochs "\<lparr> env_space = 0, env_alloc = True \<rparr>"]
    commit_atomic [of three_epochs "\<lparr> env_space = 10, env_alloc = False \<rparr>"]
    d t s n
  show ?thesis by blast
qed

subsection \<open>Rollback removes exactly the newer definitions\<close>

text \<open>
  Claim C3. On a consistent overlay, a rollback to an epoch older than the oldest
  dynamic definition still present fails with InvalidEpoch and returns the container
  unchanged. Any other rollback succeeds; the lists of type and variable definitions
  become their sublists of the definitions created before the target epoch; every
  definition created at or after it is gone from the list, from the identifier hash and
  from the name hash; every definition created before it is still in the list, is found
  under its identifier, and its name resolves to the newest remaining definition of
  that name; and the overlay is consistent again.
\<close>

theorem rollback_exact:
  assumes "overlay_ok fp"
  shows "(epoch_too_old target fp \<longrightarrow> rollback target fp = (Inl InvalidEpoch, fp)) \<and>
    (\<not> epoch_too_old target fp \<longrightarrow>
      fst (rollback target fp) = Inr () \<and>
      overlay_ok (snd (rollback target fp)) \<and>
      ctf_dtdefs (snd (rollback target fp))
        = filter (\<lambda>d. dtd_snapshots d < target) (ctf_dtdefs fp) \<and>
      ctf_dvdefs (snd (rollback target fp))
        = filter (\<lambda>v. dvd_snapshots v < target) (ctf_dvdefs fp) \<and>
      (\<forall>d \<in> set (ctf_dtdefs fp). target \<le> dtd_snapshots d \<longrightarrow>
         d \<notin> set (ctf_dtdefs (snd (rollback target fp))) \<and>
         ctf_dtd_lookup (snd (rollback target fp)) (dtd_type d) = None \<and>
         (\<forall>k. ctf_dtbyname (snd (rollback target fp)) k \<noteq> Some d)) \<and>
      (\<forall>v \<in> set (ctf_dvdefs fp). target \<le> dvd_snapshots v \<longrightarrow>
         v \<notin> set (ctf_dvdefs (snd (rollback target fp))) \<and>
         ctf_dvd_lookup (snd (rollback target fp)) (dvd_name v) = None) \<and>
      (\<forall>d \<in> set (ctf_dtdefs fp). dtd_snapshots d < target \<longrightarrow>
         d \<in> set (ctf_dtdefs (snd (rollback target fp))) \<and>
         ctf_dtd_lookup (snd (rollback target fp)) (dtd_type d) = Some d \<and>
         (\<forall>k. dtd_key d = Some k \<longrightarrow>
            ctf_dtbyname (snd (rollback target fp)) k
              = dtd_newest (filter (\<lambda>d. dtd_snapshots d < target) (ctf_dtdefs fp)) k)) \<and>
      (\<forall>v \<in> set (ctf_dvdefs fp). dvd_snapshots v < target \<longrightarrow>
         v \<in> set (ctf_dvdefs (snd (rollback target fp))) \<and>
         ctf_dvd_lookup (snd (rollback target fp)) (dvd_name v) = Some v))"
proof (intro conjI impI)
  assume "epoch_too_old target fp"
  then show "rollback target fp = (Inl InvalidEpoch, fp)" by (rule rollback_too_old)
next
  assume n: "\<not> epoch_too_old target fp"
  let ?fp = "snd (rollback target fp)"
  note l = rollback_lists [OF assms n]
  have inv: "ctf_dthash ?fp = dtd_index (ctf_dtdefs ?fp)"
    "ctf_dtbyname ?fp = dtd_newest (ctf_dtdefs ?fp)"
    "ctf_dvhash ?fp = dvd_index (ctf_dvdefs ?fp)"
    "distinct (map dtd_type (ctf_dtdefs ?fp))" "distinct (map dvd_name (ctf_dvdefs ?fp))"
    using l(2) by (simp_all add: overlay_ok_def)
  have it: "inj_on dtd_type (set (ctf_dtdefs fp))" and iv: "inj_on dvd_name (set (ctf_dvdefs fp))"
    using assms(1) by (simp_all add: overlay_ok_def distinct_map)
  show "fst (rollback target fp) = Inr ()" by (rule l(1))
  show "overlay_ok ?fp" by (rule l(2))
  show "ctf_dtdefs ?fp = filter (\<lambda>d. dtd_snapshots d < target) (ctf_dtdefs fp)" by (rule l(3))
  show "ctf_dvdefs ?fp = filter (\<lambda>v. dvd_snapshots v < target) (ctf_dvdefs fp)" by (rule l(4))
  show "\<forall>d \<in> set (ctf_dtdefs fp). target \<le> dtd_snapshots d \<longrightarrow>
         d \<notin> set (ctf_dtdefs ?fp) \<and> ctf_dtd_lookup ?fp (dtd_type d) = None \<and>
         (\<forall>k. ctf_dtbyname ?fp k \<noteq> Some d)"
  proof (intro ballI impI conjI allI)
    fix d k assume d: "d \<in> set (ctf_dtdefs fp)" "target \<le> dtd_snapshots d"
    show "d \<notin> set (ctf_dtdefs ?fp)" using d by (simp add: l(3))
    have "dtd_type d \<notin> dtd_type ` set (ctf_dtdefs ?fp)"
      using d it by (auto simp: l(3) inj_on_def)
    then show "ctf_dtd_lookup ?fp (dtd_type d) = None"
      by (simp add: ctf_dtd_lookup_def inv(1) dtd_index_None)
    show "ctf_dtbyname ?fp k \<noteq> Some d"
    proof
      assume "ctf_dtbyname ?fp k = Some d"
      then have "d \<in> set (ctf_dtdefs ?fp)"
        by (simp add: inv(2) dtd_newest_Some)
      then show False using d by (simp add: l(3))
    qed
  qed
  show "\<forall>v \<in> set (ctf_dvdefs fp). target \<le> dvd_snapshots v \<longrightarrow>
         v \<notin> set (ctf_dvdefs ?fp) \<and> ctf_dvd_lookup ?fp (dvd_name v) = None"
  proof (intro ballI impI conjI)
    fix v assume v: "v \<in> set (ctf_dvdefs fp)" "target \<le> dvd_snapshots v"
    show "v \<notin> set (ctf_dvdefs ?fp)" using v by (simp add: l(4))
    have "dvd_name v \<notin> dvd_name ` set (ctf_dvdefs ?fp)"
      using v iv by (auto simp: l(4) inj_on_def)
    then show "ctf_dvd_lookup ?fp (dvd_name v) = None"
      by (simp add: ctf_dvd_lookup_def inv(3) dvd_index_None)
  qed
  show "\<forall>d \<in> set (ctf_dtdefs fp). dtd_snapshots d < target \<longrightarrow>
         d \<in> set (ctf_dtdefs ?fp) \<and> ctf_dtd_lookup ?fp (dtd_type d) = Some d \<and>
         (\<forall>k. dtd_key d = Some k \<longrightarrow>
            ctf_dtbyname ?fp k
              = dtd_newest (filter (\<lambda>d. dtd_snapshots d < target) (ctf_dtdefs fp)) k)"
  proof (intro ballI impI conjI allI)
    fix d k assume d: "d \<in> set (ctf_dtdefs fp)" "dtd_snapshots d < target"
    show m: "d \<in> set (ctf_dtdefs ?fp)" using d by (simp add: l(3))
    show "ctf_dtd_lookup ?fp (dtd_type d) = Some d"
      using dtd_index_Some [OF inv(4) m] by (simp add: ctf_dtd_lookup_def inv(1))
    show "ctf_dtbyname ?fp k
        = dtd_newest (filter (\<lambda>d. dtd_snapshots d < target) (ctf_dtdefs fp)) k"
      by (simp add: inv(2) l(3))
  qed
  show "\<forall>v \<in> set (ctf_dvdefs fp). dvd_snapshots v < target \<longrightarrow>
         v \<in> set (ctf_dvdefs ?fp) \<and> ctf_dvd_lookup ?fp (dvd_name v) = Some v"
  proof (intro ballI impI conjI)
    fix v assume v: "v \<in> set (ctf_dvdefs fp)" "dvd_snapshots v < target"
    show m: "v \<in> set (ctf_dvdefs ?fp)" using v by (simp add: l(4))
    show "ctf_dvd_lookup ?fp (dvd_name v) = Some v"
      using dvd_index_Some [OF inv(5) m] by (simp add: ctf_dvd_lookup_def inv(3))
  qed
qed

text \<open>
  Types added at epochs 1, 2 and 3: rollback to 2 leaves the first; rollback to 0 is
  refused.
\<close>

theorem rollback_exact_witness:
  "rollback 0 three_epochs = (Inl InvalidEpoch, three_epochs) \<and>
   fst (rollback 2 three_epochs) = Inr () \<and>
   map (\<lambda>d. (dtd_name d, dtd_type d, dtd_snapshots d))
     (ctf_dtdefs (snd (rollback 2 three_epochs))) = [(Some ''a'', 1, 1)] \<and>
   overlay_ok (snd (rollback 2 three_epochs))"
proof -
  have o: "epoch_too_old 0 three_epochs"
    by (simp add: three_epochs_def add_type_def snapshot_def ctf_create_def int_payload_def
        ctf_dtu_fits_def ctf_dtd_insert_def Let_def epoch_too_old_def overlay_epochs_def)
  have n: "\<not> epoch_too_old 2 three_epochs"
    by (simp add: three_epochs_def add_type_def snapshot_def ctf_create_def int_payload_def
        ctf_dtu_fits_def ctf_dtd_insert_def Let_def epoch_too_old_def overlay_epochs_def)
  have f: "map (\<lambda>d. (dtd_name d, dtd_type d, dtd_snapshots d))
      (filter (\<lambda>d. dtd_snapshots d < 2) (ctf_dtdefs three_epochs)) = [(Some ''a'', 1, 1)]"
    by (simp add: three_epochs_def add_type_def snapshot_def ctf_create_def int_payload_def
        ctf_dtu_fits_def ctf_dtd_insert_def Let_def)
  from rollback_exact [OF three_epochs_overlay_ok, of 0] o
  have a: "rollback 0 three_epochs = (Inl InvalidEpoch, three_epochs)"
    by blast
  from rollback_exact [OF three_epochs_overlay_ok, of 2] n
  have b: "fst (rollback 2 three_epochs) = Inr ()"
    "overlay_ok (snd (rollback 2 three_epochs))"
    "ctf_dtdefs (snd (rollback 2 three_epochs))
      = filter (\<lambda>d. dtd_snapshots d < 2) (ctf_dtdefs three_epochs)"
    by blast+
  show ?thesis
    using a b(1,2) f by (simp only: b(3)) 
qed

subsection \<open>Name lookup: newest dynamic, then static, then parent\<close>



end
